theory Spec2Isabelle
  imports Main "HOL-Library.Word"
begin

unbundle bit_operations_syntax

section \<open>Shared constants and native handles\<close>

text \<open>
  \<open>VGPU_MAX_INFLIGHT_FRAMES\<close> is \<open>2u\<close> in \<open>vgpu.h\<close>. Native objects are
  referred to through pointers; a non-null pointer is modelled by a natural number that
  names the object, and a pointer that may be null by an \<open>option\<close>.
\<close>

definition MAX_INFLIGHT_FRAMES :: nat where
  "MAX_INFLIGHT_FRAMES = 2"

type_synonym u64 = "64 word"

type_synonym u32 = "32 word"

type_synonym ptr = nat

section \<open>Deferred destruction queue (D3D12Device)\<close>

text \<open>
  \<open>D3D12Device::DeferDestroy\<close> and \<open>D3D12Device::ProcessDeletionQueue\<close>. The
  device keeps two deques of (pointer, frame count at release) pairs, one for
  \<open>IUnknown\<close> resources and one for \<open>D3D12MA::Allocation\<close>s. Calling \<open>Release()\<close> on
  a native object is an effect; the model appends the released object to the log
  \<open>released\<close>, so that the order and the moment of every native release can be read off
  the state.
\<close>

datatype native = Resource ptr | Allocation ptr

record destroy_state =
  shuttingDown :: bool
  device :: "ptr option"
  frameCount :: u64
  deferredReleases :: "(ptr \<times> u64) list"
  deferredAllocations :: "(ptr \<times> u64) list"
  released :: "native list"

text \<open>\<open>SAFE_RELEASE(allocation)\<close>: release only a non-null pointer.\<close>

definition safe_release_allocation :: "ptr option \<Rightarrow> native list" where
  "safe_release_allocation a = (case a of None \<Rightarrow> [] | Some p \<Rightarrow> [Allocation p])"

definition DeferDestroy ::
  "ptr option \<Rightarrow> ptr option \<Rightarrow> 'a destroy_state_scheme \<Rightarrow> 'a destroy_state_scheme" where
  "DeferDestroy resource allocation st =
     (case resource of
        None \<Rightarrow> st
      | Some r \<Rightarrow>
          if shuttingDown st \<or> device st = None
          then st\<lparr>released := released st @ Resource r # safe_release_allocation allocation\<rparr>
          else
            (let st1 = st\<lparr>deferredReleases := deferredReleases st @ [(r, frameCount st)]\<rparr>
             in case allocation of
                  None \<Rightarrow> st1
                | Some a \<Rightarrow>
                    st1\<lparr>deferredAllocations := deferredAllocations st1 @ [(a, frameCount st)]\<rparr>))"

text \<open>
  One \<open>while (!queue.empty())\<close> loop of \<open>ProcessDeletionQueue\<close>: pop the front while
  \<open>front().second + VGPU_MAX_INFLIGHT_FRAMES < frameCount\<close> (unsigned 64-bit
  arithmetic), stop at the first entry that fails the test. The result is the list of
  popped pointers, in the order of their \<open>Release()\<close> calls, and the rest of the queue.
\<close>

fun drain :: "u64 \<Rightarrow> (ptr \<times> u64) list \<Rightarrow> ptr list \<times> (ptr \<times> u64) list" where
  "drain fc [] = ([], [])"
| "drain fc ((p, f) # q) =
     (if f + of_nat MAX_INFLIGHT_FRAMES < fc
      then (case drain fc q of (ps, q') \<Rightarrow> (p # ps, q'))
      else ([], (p, f) # q))"

definition ProcessDeletionQueue :: "'a destroy_state_scheme \<Rightarrow> 'a destroy_state_scheme" where
  "ProcessDeletionQueue st =
     (case drain (frameCount st) (deferredAllocations st) of (as, qa) \<Rightarrow>
      case drain (frameCount st) (deferredReleases st) of (rs, qr) \<Rightarrow>
        st\<lparr>deferredAllocations := qa, deferredReleases := qr,
           released := released st @ map Allocation as @ map Resource rs\<rparr>)"

text \<open>
  The tail of \<open>D3D12Device::Submit\<close> as far as this queue is concerned:
  \<open>frameCount++\<close> followed by \<open>ProcessDeletionQueue()\<close>.
\<close>

definition begin_new_frame :: "'a destroy_state_scheme \<Rightarrow> 'a destroy_state_scheme" where
  "begin_new_frame st = ProcessDeletionQueue (st\<lparr>frameCount := frameCount st + 1\<rparr>)"

text \<open>
  An entry is eligible when the 64-bit test of the loop succeeds. \<open>stamps_ok\<close> says that
  the frame stamps of a queue are in submission order and that adding the in-flight
  window to a stamp does not wrap around.
\<close>

definition eligible :: "u64 \<Rightarrow> ptr \<times> u64 \<Rightarrow> bool" where
  "eligible fc e = (snd e + of_nat MAX_INFLIGHT_FRAMES < fc)"

definition stamps_ok :: "(ptr \<times> u64) list \<Rightarrow> bool" where
  "stamps_ok q = (sorted (map (unat \<circ> snd) q) \<and>
                  list_all (\<lambda>e. unat (snd e) + MAX_INFLIGHT_FRAMES < 2 ^ 64) q)"

definition device_start :: destroy_state where
  "device_start = \<lparr>shuttingDown = False, device = Some 1, frameCount = 0,
                   deferredReleases = [], deferredAllocations = [], released = []\<rparr>"

subsection \<open>Invariant of the queues along a run\<close>

text \<open>
  Every stamp in a queue is at most the current frame count, and the stamps are in
  order: \<open>DeferDestroy\<close> stamps with the current \<open>frameCount\<close>, which only grows.
\<close>

definition queue_inv :: "'a destroy_state_scheme \<Rightarrow> bool" where
  "queue_inv st =
     (stamps_ok (deferredReleases st) \<and> stamps_ok (deferredAllocations st) \<and>
      list_all (\<lambda>e. unat (snd e) \<le> unat (frameCount st)) (deferredReleases st) \<and>
      list_all (\<lambda>e. unat (snd e) \<le> unat (frameCount st)) (deferredAllocations st))"

section \<open>Command buffer pool and frame pacer (D3D12Device)\<close>

text \<open>
  The GPU side of a \<open>ID3D12CommandQueue\<close>: commands run in the order in which they were
  queued. \<open>ExecuteCommandLists\<close> queues work, \<open>Signal(fence, value)\<close> queues a fence
  update that takes effect when the GPU reaches it. A fence's completed value changes
  only through such a signal. The frame fences of a queue are created with value 0.
\<close>

datatype gpu_cmd = ExecuteCommandLists "ptr list" | SignalFence nat u64

record gpu_queue =
  submitCommandLists :: "ptr list"
  pending :: "gpu_cmd list"
  frameFences :: "u64 list"

text \<open>The GPU executes the command at the front of a queue.\<close>

fun gpu_exec :: "gpu_cmd \<Rightarrow> u64 list \<Rightarrow> u64 list" where
  "gpu_exec (ExecuteCommandLists ls) fences = fences"
| "gpu_exec (SignalFence slot v) fences = fences[slot := v]"

definition gpu_step :: "gpu_queue \<Rightarrow> gpu_queue" where
  "gpu_step q =
     (case pending q of
        [] \<Rightarrow> q
      | c # cs \<Rightarrow> q\<lparr>pending := cs, frameFences := gpu_exec c (frameFences q)\<rparr>)"

text \<open>
  \<open>SetEventOnCompletion(1, nullptr)\<close> blocks the calling thread until the fence has
  reached 1. The GPU runs its pending commands meanwhile; the model lets it run just as
  far as the wait needs. \<open>None\<close>: the fence never reaches 1, the thread blocks forever.
\<close>

fun wait_for_fence :: "nat \<Rightarrow> u64 list \<Rightarrow> gpu_cmd list \<Rightarrow> (u64 list \<times> gpu_cmd list) option" where
  "wait_for_fence slot fences [] = (if fences ! slot < 1 then None else Some (fences, []))"
| "wait_for_fence slot fences (c # cs) =
     (if fences ! slot < 1 then wait_for_fence slot (gpu_exec c fences) cs
      else Some (fences, c # cs))"

text \<open>
  The number of submitted frames of a queue that the GPU has not completed: every
  \<open>Submit\<close> queues exactly one frame-fence signal per queue, after that frame's work.
\<close>

fun is_signal :: "gpu_cmd \<Rightarrow> bool" where
  "is_signal (SignalFence slot v) = True"
| "is_signal (ExecuteCommandLists ls) = False"

definition frames_in_flight :: "gpu_queue \<Rightarrow> nat" where
  "frames_in_flight q = length (filter is_signal (pending q))"

text \<open>
  The device: the destruction state extended by the frame index, the command buffer
  pool and the three queues (graphics, compute, copy). \<open>nextObject\<close> is the address the
  next \<open>new D3D12CommandBuffer()\<close> returns; \<open>cbQueueType\<close> holds the \<open>queueType\<close>
  field of every command buffer object, \<open>beginLog\<close> the calls of
  \<open>commandBuffer->Begin(frameIndex, label)\<close>.
\<close>

record d3d12_device = destroy_state +
  frameIndex :: nat
  cmdBuffersCount :: nat
  commandBuffersPool :: "ptr list"
  nextObject :: ptr
  cbQueueType :: "ptr \<Rightarrow> nat option"
  beginLog :: "(ptr \<times> nat) list"
  queues :: "gpu_queue list"

text \<open>
  \<open>D3D12Device::BeginCommandBuffer\<close>. \<open>cmdBuffersCount\<close> is a \<open>uint32_t\<close>. Both
  branches begin and return \<open>commandBuffersPool.back()\<close>.
\<close>

definition BeginCommandBuffer :: "nat \<Rightarrow> d3d12_device \<Rightarrow> ptr \<times> d3d12_device" where
  "BeginCommandBuffer queueType dev =
     (let cmd_current = cmdBuffersCount dev;
          dev1 = dev\<lparr>cmdBuffersCount := (cmd_current + 1) mod 2 ^ 32\<rparr>;
          dev2 =
            (if cmd_current \<ge> length (commandBuffersPool dev1)
             then
               (let commandBuffer = nextObject dev1
                in dev1\<lparr>nextObject := commandBuffer + 1,
                        cbQueueType := (cbQueueType dev1)(commandBuffer \<mapsto> queueType),
                        commandBuffersPool := commandBuffersPool dev1 @ [commandBuffer]\<rparr>)
             else dev1);
          commandBuffer = last (commandBuffersPool dev2)
      in (commandBuffer,
          dev2\<lparr>beginLog := beginLog dev2 @ [(commandBuffer, frameIndex dev2)]\<rparr>))"

text \<open>
  \<open>D3D12Device::Submit\<close>. The first loop closes each command list and appends it to
  the \<open>submitCommandLists\<close> of its queue; a failing \<open>Close()\<close> returns 0 at once. The
  flag paired with a command buffer says whether its \<open>Close()\<close> succeeds. Barrier
  recording and debug labels act on the command list's contents only and are left out.
\<close>

fun close_command_lists ::
  "(ptr \<Rightarrow> nat option) \<Rightarrow> (ptr \<times> bool) list \<Rightarrow> gpu_queue list \<Rightarrow> (gpu_queue list \<times> bool) option" where
  "close_command_lists qt [] qs = Some (qs, True)"
| "close_command_lists qt ((cb, close_ok) # cbs) qs =
     (if \<not> close_ok then Some (qs, False)
      else case qt cb of
        None \<Rightarrow> None
      | Some k \<Rightarrow>
          if k < length qs
          then close_command_lists qt cbs
                 (qs[k := (qs ! k)\<lparr>submitCommandLists := submitCommandLists (qs ! k) @ [cb]\<rparr>])
          else None)"

text \<open>
  The second loop, per queue: execute the collected command lists if there are any,
  then \<open>queue.handle->Signal(queue.frameFences[frameIndex], 1)\<close>.
\<close>

definition execute_and_signal :: "nat \<Rightarrow> gpu_queue \<Rightarrow> gpu_queue" where
  "execute_and_signal fi q =
     (let q1 = (if submitCommandLists q \<noteq> []
                then q\<lparr>pending := pending q @ [ExecuteCommandLists (submitCommandLists q)],
                       submitCommandLists := []\<rparr>
                else q)
      in q1\<lparr>pending := pending q1 @ [SignalFence fi 1]\<rparr>)"

text \<open>
  The last loop, per queue: \<open>if (frameCount >= VGPU_MAX_INFLIGHT_FRAMES &&
  frameFences[frameIndex]->GetCompletedValue() < 1) SetEventOnCompletion(1, nullptr)\<close>.
\<close>

definition wait_frame_fence :: "u64 \<Rightarrow> nat \<Rightarrow> gpu_queue \<Rightarrow> gpu_queue option" where
  "wait_frame_fence fc fi q =
     (if of_nat MAX_INFLIGHT_FRAMES \<le> fc \<and> frameFences q ! fi < 1
      then (case wait_for_fence fi (frameFences q) (pending q) of
              None \<Rightarrow> None
            | Some (fences, cs) \<Rightarrow> Some (q\<lparr>pending := cs, frameFences := fences\<rparr>))
      else Some q)"

fun wait_all :: "u64 \<Rightarrow> nat \<Rightarrow> gpu_queue list \<Rightarrow> gpu_queue list option" where
  "wait_all fc fi [] = Some []"
| "wait_all fc fi (q # qs) =
     (case wait_frame_fence fc fi q of
        None \<Rightarrow> None
      | Some q' \<Rightarrow> (case wait_all fc fi qs of None \<Rightarrow> None | Some qs' \<Rightarrow> Some (q' # qs')))"

text \<open>
  \<open>present_lost\<close> says whether a \<open>Present\<close> of this call reports a removed or reset
  device, in which case \<open>Submit\<close> returns 0 before the frame counter advances. The result
  is the returned ticket and the new device state; \<open>None\<close> when the call does not return
  (an invalid command buffer pointer, or a wait that never ends).
\<close>

definition Submit ::
  "(ptr \<times> bool) list \<Rightarrow> bool \<Rightarrow> d3d12_device \<Rightarrow> (u64 \<times> d3d12_device) option" where
  "Submit commandBuffers present_lost dev =
     (case close_command_lists (cbQueueType dev) commandBuffers (queues dev) of
        None \<Rightarrow> None
      | Some (qs, False) \<Rightarrow> Some (0, dev\<lparr>queues := qs\<rparr>)
      | Some (qs, True) \<Rightarrow>
          (let dev1 = dev\<lparr>queues := map (execute_and_signal (frameIndex dev)) qs,
                          cmdBuffersCount := 0\<rparr>
           in if present_lost then Some (0, dev1)
              else
                (let fc = frameCount dev1 + 1;
                     fi = unat fc mod MAX_INFLIGHT_FRAMES
                 in case wait_all fc fi (queues dev1) of
                      None \<Rightarrow> None
                    | Some qs' \<Rightarrow>
                        Some (fc - 1,
                              ProcessDeletionQueue
                                (dev1\<lparr>frameCount := fc, frameIndex := fi, queues := qs'\<rparr>)))))"

text \<open>A device after \<open>Init\<close>: no frame submitted, empty pool, three idle queues.\<close>

definition idle_queue :: gpu_queue where
  "idle_queue = \<lparr>submitCommandLists = [], pending = [], frameFences = [0, 0]\<rparr>"

definition d3d12_start :: d3d12_device where
  "d3d12_start =
     \<lparr>shuttingDown = False, device = Some 1, frameCount = 0,
      deferredReleases = [], deferredAllocations = [], released = [],
      frameIndex = 0, cmdBuffersCount = 0, commandBuffersPool = [], nextObject = 100,
      cbQueueType = (\<lambda>p. None), beginLog = [], queues = [idle_queue, idle_queue, idle_queue]\<rparr>"

text \<open>
  A frame of client code: check out \<open>n\<close> command buffers on the graphics queue, then
  submit them all (every \<open>Close()\<close> succeeding, no device loss).
\<close>

fun begin_n :: "nat \<Rightarrow> d3d12_device \<Rightarrow> ptr list \<times> d3d12_device" where
  "begin_n 0 dev = ([], dev)"
| "begin_n (Suc n) dev =
     (case BeginCommandBuffer 0 dev of
        (cb, dev1) \<Rightarrow> (case begin_n n dev1 of (cbs, dev2) \<Rightarrow> (cb # cbs, dev2)))"

definition render_frame :: "nat \<Rightarrow> d3d12_device \<Rightarrow> d3d12_device option" where
  "render_frame n dev =
     (case begin_n n dev of
        (cbs, dev1) \<Rightarrow> map_option snd (Submit (map (\<lambda>cb. (cb, True)) cbs) False dev1))"

text \<open>Five such frames in a row, one command buffer each, from a fresh device.\<close>

definition five_frames :: "d3d12_device option" where
  "five_frames =
     Option.bind (Option.bind (Option.bind (Option.bind
       (render_frame 1 d3d12_start) (render_frame 1)) (render_frame 1)) (render_frame 1))
       (render_frame 1)"

section \<open>Bind group layouts (D3D12Device::CreateBindGroupLayout)\<close>

text \<open>
  \<open>VGPUDescriptorType\<close> of \<open>vgpu.h\<close>; \<open>OtherDescriptorType\<close> stands for any value
  of the enum's integer type that is none of the named ones (the \<open>default\<close> branch).
\<close>

datatype VGPUDescriptorType =
    Sampler | SampledTexture | StorageTexture | ReadOnlyStorageTexture
  | ConstantBuffer | DynamicConstantBuffer | StorageBuffer | ReadOnlyStorageBuffer
  | OtherDescriptorType

datatype D3D12_DESCRIPTOR_RANGE_TYPE = SRV | UAV | CBV | SAMPLER

record VGPUBindGroupLayoutEntry =
  binding :: u32
  count :: u32
  descriptorType :: VGPUDescriptorType

record D3D12_DESCRIPTOR_RANGE1 =
  RangeType :: D3D12_DESCRIPTOR_RANGE_TYPE
  NumDescriptors :: u32
  BaseShaderRegister :: u32
  RegisterSpace :: u32
  Flags :: u32
  OffsetInDescriptorsFromTableStart :: u32

record D3D12BindGroupLayout =
  descriptorTableSizeCbvUavSrv :: u32
  descriptorTableSizeSamplers :: u32
  cbvUavSrvDescriptorRanges :: "D3D12_DESCRIPTOR_RANGE1 list"
  samplerDescriptorRanges :: "D3D12_DESCRIPTOR_RANGE1 list"

text \<open>The \<open>switch (entry.descriptorType)\<close>; the variable starts as \<open>SRV\<close>.\<close>

fun to_range_type :: "VGPUDescriptorType \<Rightarrow> D3D12_DESCRIPTOR_RANGE_TYPE" where
  "to_range_type Sampler = SAMPLER"
| "to_range_type SampledTexture = SRV"
| "to_range_type StorageTexture = UAV"
| "to_range_type ReadOnlyStorageTexture = SRV"
| "to_range_type ConstantBuffer = CBV"
| "to_range_type DynamicConstantBuffer = CBV"
| "to_range_type StorageBuffer = UAV"
| "to_range_type ReadOnlyStorageBuffer = SRV"
| "to_range_type OtherDescriptorType = SRV"

text \<open>
  The \<open>switch (descriptorRangeType)\<close> that sets \<open>range.Flags\<close>; it has no case for
  \<open>UAV\<close>, whose flags stay at the zero of \<open>range = {}\<close>.
  \<open>DESCRIPTORS_VOLATILE | DATA_VOLATILE\<close> is 3, \<open>DATA_STATIC_WHILE_SET_AT_EXECUTE\<close> is 4.
\<close>

fun range_flags :: "D3D12_DESCRIPTOR_RANGE_TYPE \<Rightarrow> u32" where
  "range_flags SRV = 3"
| "range_flags CBV = 4"
| "range_flags SAMPLER = 0"
| "range_flags UAV = 0"

definition D3D12_DRIVER_RESERVED_REGISTER_SPACE_VALUES_START :: u32 where
  "D3D12_DRIVER_RESERVED_REGISTER_SPACE_VALUES_START = 0xfffffff0"

text \<open>
  The state of the loop over the entries: the layout built so far, \<open>currentType\<close>
  (\<open>None\<close> for the initial \<open>-1\<close>, which is no range type) and \<open>currentBinding\<close>
  (initially \<open>~0u\<close>).
\<close>

record layout_loop =
  layout :: D3D12BindGroupLayout
  currentType :: "D3D12_DESCRIPTOR_RANGE_TYPE option"
  currentBinding :: u32

definition empty_layout :: D3D12BindGroupLayout where
  "empty_layout = \<lparr>descriptorTableSizeCbvUavSrv = 0, descriptorTableSizeSamplers = 0,
                    cbvUavSrvDescriptorRanges = [], samplerDescriptorRanges = []\<rparr>"

definition layout_loop_start :: layout_loop where
  "layout_loop_start = \<lparr>layout = empty_layout, currentType = None, currentBinding = - 1\<rparr>"

text \<open>
  \<open>range.NumDescriptors += entry.count\<close> on the last range of a list.
  \<open>VGPU_ASSERT(!ranges.empty())\<close> guards it: \<open>None\<close> is the failed assertion.
\<close>

definition extend_last_range ::
  "u32 \<Rightarrow> D3D12_DESCRIPTOR_RANGE1 list \<Rightarrow> D3D12_DESCRIPTOR_RANGE1 list option" where
  "extend_last_range n ranges =
     (if ranges = [] then None
      else Some (butlast ranges
                 @ [(last ranges)\<lparr>NumDescriptors := NumDescriptors (last ranges) + n\<rparr>]))"

text \<open>One iteration of the loop of \<open>CreateBindGroupLayout\<close>.\<close>

definition layout_step :: "VGPUBindGroupLayoutEntry \<Rightarrow> layout_loop \<Rightarrow> layout_loop option" where
  "layout_step entry s =
     (let descriptorRangeType = to_range_type (descriptorType entry);
          l = layout s
      in if Some descriptorRangeType \<noteq> currentType s \<or> binding entry \<noteq> currentBinding s + 1
         then
           (let range = \<lparr>RangeType = descriptorRangeType,
                          NumDescriptors = count entry,
                          BaseShaderRegister = binding entry,
                          RegisterSpace = D3D12_DRIVER_RESERVED_REGISTER_SPACE_VALUES_START,
                          Flags = range_flags descriptorRangeType,
                          OffsetInDescriptorsFromTableStart = - 1\<rparr>;
                l' = (if descriptorRangeType = SAMPLER
                      then l\<lparr>samplerDescriptorRanges :=
                               samplerDescriptorRanges l
                               @ [range\<lparr>OffsetInDescriptorsFromTableStart :=
                                           descriptorTableSizeSamplers l\<rparr>],
                             descriptorTableSizeSamplers := descriptorTableSizeSamplers l + 1\<rparr>
                      else l\<lparr>cbvUavSrvDescriptorRanges :=
                               cbvUavSrvDescriptorRanges l
                               @ [range\<lparr>OffsetInDescriptorsFromTableStart :=
                                           descriptorTableSizeCbvUavSrv l\<rparr>],
                             descriptorTableSizeCbvUavSrv := descriptorTableSizeCbvUavSrv l + 1\<rparr>)
            in Some (s\<lparr>layout := l', currentType := Some descriptorRangeType,
                       currentBinding := binding entry\<rparr>))
         else
           (if descriptorRangeType = SAMPLER
            then (case extend_last_range (count entry) (samplerDescriptorRanges l) of
                    None \<Rightarrow> None
                  | Some ranges \<Rightarrow>
                      Some (s\<lparr>layout := l\<lparr>samplerDescriptorRanges := ranges,
                                            descriptorTableSizeSamplers :=
                                              descriptorTableSizeSamplers l + count entry\<rparr>,
                              currentBinding := binding entry\<rparr>))
            else (case extend_last_range (count entry) (cbvUavSrvDescriptorRanges l) of
                    None \<Rightarrow> None
                  | Some ranges \<Rightarrow>
                      Some (s\<lparr>layout := l\<lparr>cbvUavSrvDescriptorRanges := ranges,
                                            descriptorTableSizeCbvUavSrv :=
                                              descriptorTableSizeCbvUavSrv l + count entry\<rparr>,
                              currentBinding := binding entry\<rparr>))))"

fun layout_entries :: "VGPUBindGroupLayoutEntry list \<Rightarrow> layout_loop \<Rightarrow> layout_loop option" where
  "layout_entries [] s = Some s"
| "layout_entries (entry # entries) s =
     (case layout_step entry s of None \<Rightarrow> None | Some s' \<Rightarrow> layout_entries entries s')"

definition CreateBindGroupLayout ::
  "VGPUBindGroupLayoutEntry list \<Rightarrow> D3D12BindGroupLayout option" where
  "CreateBindGroupLayout entries = map_option layout (layout_entries entries layout_loop_start)"

text \<open>
  Notions used to state the claims: the entries of a list that map to the sampler
  family or to the CBV/UAV/SRV family, the sum of their \<open>count\<close> fields, and the
  condition under which the loop starts a new range for an entry that follows \<open>prev\<close>.
\<close>

definition is_sampler_entry :: "VGPUBindGroupLayoutEntry \<Rightarrow> bool" where
  "is_sampler_entry e = (to_range_type (descriptorType e) = SAMPLER)"

definition count_sum :: "VGPUBindGroupLayoutEntry list \<Rightarrow> u32" where
  "count_sum es = sum_list (map count es)"

definition breaks_range :: "VGPUBindGroupLayoutEntry \<Rightarrow> VGPUBindGroupLayoutEntry \<Rightarrow> bool" where
  "breaks_range prev e =
     (to_range_type (descriptorType e) \<noteq> to_range_type (descriptorType prev)
      \<or> binding e \<noteq> binding prev + 1)"

definition range_total :: "D3D12BindGroupLayout \<Rightarrow> nat" where
  "range_total l = length (cbvUavSrvDescriptorRanges l) + length (samplerDescriptorRanges l)"

text \<open>
  The extend branch reads the last range of the family of \<open>currentType\<close>; \<open>loop_inv\<close>
  says that this range exists.
\<close>

definition loop_inv :: "layout_loop \<Rightarrow> bool" where
  "loop_inv s =
     (case currentType s of
        None \<Rightarrow> True
      | Some t \<Rightarrow> if t = SAMPLER then samplerDescriptorRanges (layout s) \<noteq> []
                  else cbvUavSrvDescriptorRanges (layout s) \<noteq> [])"

section \<open>Swapchain acquire (D3D12CommandBuffer::AcquireSwapchainTexture)\<close>

text \<open>
  \<open>D3D12_RESOURCE_STATES\<close> is a bit mask. The values are those of \<open>d3d12.h\<close>.
\<close>

definition D3D12_RESOURCE_STATE_PRESENT :: u32 where
  "D3D12_RESOURCE_STATE_PRESENT = 0"

definition D3D12_RESOURCE_STATE_RENDER_TARGET :: u32 where
  "D3D12_RESOURCE_STATE_RENDER_TARGET = 0x4"

definition D3D12_RESOURCE_STATE_UNORDERED_ACCESS :: u32 where
  "D3D12_RESOURCE_STATE_UNORDERED_ACCESS = 0x8"

definition VALID_COMPUTE_QUEUE_RESOURCE_STATES :: u32 where
  "VALID_COMPUTE_QUEUE_RESOURCE_STATES = 0x8 OR 0x40 OR 0x400 OR 0x800"

definition VGPUCommandQueue_Compute :: nat where
  "VGPUCommandQueue_Compute = 1"

datatype HRESULT = S_OK | DXGI_ERROR_DEVICE_REMOVED | DXGI_ERROR_DEVICE_RESET | E_FAIL

datatype barrier =
    TransitionBarrier ptr u32 u32 bool  \<comment> \<open>resource, state before, state after, END_ONLY flag\<close>
  | UAVBarrier ptr

record D3D12Texture =
  tex_handle :: ptr
  tex_width :: u32
  tex_height :: u32
  tex_state :: u32
  tex_transitioningState :: u32

text \<open>
  The swapchain object together with what its native window and native swapchain
  report: \<open>sc_clientRect\<close> is the \<open>RECT\<close> (left, top, right, bottom) that
  \<open>GetClientRect\<close> fills in, \<open>sc_descWidth\<close>, \<open>sc_descHeight\<close> and \<open>sc_descBufferCount\<close>
  what \<open>GetDesc1\<close> returns, \<open>sc_currentBackBufferIndex\<close> what
  \<open>GetCurrentBackBufferIndex\<close> returns.
\<close>

record D3D12SwapChain =
  sc_clientRect :: "u32 \<times> u32 \<times> u32 \<times> u32"
  sc_descWidth :: u32
  sc_descHeight :: u32
  sc_descBufferCount :: nat
  sc_currentBackBufferIndex :: nat
  sc_width :: u32
  sc_height :: u32
  sc_backBufferCount :: nat
  sc_backbufferTextures :: "ptr list"

text \<open>
  The command buffer that records, the swapchain (at address \<open>swapChainPtr\<close>), the
  live texture wrappers, and logs of the effects on the device: \<open>WaitIdle\<close> calls,
  \<open>ResizeBuffers\<close> calls, deleted wrappers, barrier batches passed to
  \<open>commandList->ResourceBarrier\<close>.
\<close>

record acquire_world =
  swapChainPtr :: ptr
  swapChain :: D3D12SwapChain
  textures :: "ptr \<Rightarrow> D3D12Texture option"
  nextTexture :: ptr
  cb_queueType :: nat
  resourceBarriers :: "barrier list"
  flushedBarriers :: "barrier list list"
  cb_swapChains :: "ptr list"
  waitIdleCalls :: nat
  resizeCalls :: "(nat \<times> u32 \<times> u32) list"
  deletedTextures :: "ptr list"

definition FlushResourceBarriers :: "acquire_world \<Rightarrow> acquire_world" where
  "FlushResourceBarriers w =
     (if resourceBarriers w \<noteq> []
      then w\<lparr>flushedBarriers := flushedBarriers w @ [resourceBarriers w], resourceBarriers := []\<rparr>
      else w)"

text \<open>
  \<open>TransitionResource(resource, newState, flushImmediate)\<close>. The array of buffered
  barriers has 16 places; \<open>None\<close> is a failed \<open>VGPU_ASSERT\<close> or a dangling pointer.
\<close>

definition TransitionResource :: "ptr \<Rightarrow> u32 \<Rightarrow> bool \<Rightarrow> acquire_world \<Rightarrow> acquire_world option" where
  "TransitionResource resource newState flushImmediate w =
     (case textures w resource of
        None \<Rightarrow> None
      | Some t \<Rightarrow>
          (let oldState = tex_state t
           in if cb_queueType w = VGPUCommandQueue_Compute \<and>
                 (oldState AND VALID_COMPUTE_QUEUE_RESOURCE_STATES \<noteq> oldState \<or>
                  newState AND VALID_COMPUTE_QUEUE_RESOURCE_STATES \<noteq> newState)
              then None
              else if oldState \<noteq> newState
              then
                (if \<not> length (resourceBarriers w) < 16 then None
                 else
                   (let end_only = (newState = tex_transitioningState t);
                        t' = t\<lparr>tex_state := newState,
                               tex_transitioningState :=
                                 (if end_only then - 1 else tex_transitioningState t)\<rparr>;
                        w1 = w\<lparr>resourceBarriers :=
                                 resourceBarriers w
                                 @ [TransitionBarrier (tex_handle t) oldState newState end_only],
                               textures := (textures w)(resource \<mapsto> t')\<rparr>
                    in Some (if flushImmediate \<or> length (resourceBarriers w1) = 16
                             then FlushResourceBarriers w1 else w1)))
              else if newState = D3D12_RESOURCE_STATE_UNORDERED_ACCESS
              then
                (if \<not> length (resourceBarriers w) < 16 then None
                 else
                   (let w1 = w\<lparr>resourceBarriers := resourceBarriers w @ [UAVBarrier (tex_handle t)]\<rparr>;
                        w2 = (if flushImmediate then FlushResourceBarriers w1 else w1)
                    in Some (if flushImmediate \<or> length (resourceBarriers w2) = 16
                             then FlushResourceBarriers w2 else w2)))
              else Some (if flushImmediate \<or> length (resourceBarriers w) = 16
                         then FlushResourceBarriers w else w)))"

text \<open>
  \<open>D3D12Device::UpdateSwapChain\<close>: take over the size of the native swapchain and
  wrap each of its buffers in a new texture in state \<open>PRESENT\<close>. The native buffer
  \<open>i\<close> of the swapchain is named by \<open>i\<close>.
\<close>

definition new_backbuffer :: "u32 \<Rightarrow> u32 \<Rightarrow> nat \<Rightarrow> D3D12Texture" where
  "new_backbuffer w h i =
     \<lparr>tex_handle = i, tex_width = w, tex_height = h,
      tex_state = D3D12_RESOURCE_STATE_PRESENT, tex_transitioningState = - 1\<rparr>"

fun wrap_buffers ::
  "u32 \<Rightarrow> u32 \<Rightarrow> ptr \<Rightarrow> nat list \<Rightarrow> (ptr \<Rightarrow> D3D12Texture option) \<Rightarrow> (ptr \<Rightarrow> D3D12Texture option)" where
  "wrap_buffers w h base [] texs = texs"
| "wrap_buffers w h base (i # is) texs =
     wrap_buffers w h base is (texs(base + i \<mapsto> new_backbuffer w h i))"

definition UpdateSwapChain :: "acquire_world \<Rightarrow> acquire_world" where
  "UpdateSwapChain w =
     (let sc = swapChain w;
          n = sc_descBufferCount sc;
          base = nextTexture w
      in w\<lparr>swapChain := sc\<lparr>sc_width := sc_descWidth sc, sc_height := sc_descHeight sc,
                            sc_backbufferTextures := map (\<lambda>i. base + i) [0..<n]\<rparr>,
           textures := wrap_buffers (sc_descWidth sc) (sc_descHeight sc) base [0..<n] (textures w),
           nextTexture := base + n\<rparr>)"

text \<open>\<open>delete\<close> of every backbuffer wrapper, then \<open>backbufferTextures.clear()\<close>.\<close>

fun delete_textures :: "ptr list \<Rightarrow> (ptr \<Rightarrow> D3D12Texture option) \<Rightarrow> (ptr \<Rightarrow> D3D12Texture option)" where
  "delete_textures [] texs = texs"
| "delete_textures (p # ps) texs = delete_textures ps (texs(p := None))"

text \<open>
  \<open>AcquireSwapchainTexture\<close>. \<open>resize_hr\<close> is the result that \<open>ResizeBuffers\<close> would
  return. The inner option is the returned pointer (\<open>None\<close> for \<open>nullptr\<close>), the outer
  one is \<open>None\<close> when the call does not return (failed assertion, index out of range).
\<close>

definition AcquireSwapchainTexture ::
  "HRESULT \<Rightarrow> acquire_world \<Rightarrow> (ptr option \<times> acquire_world) option" where
  "AcquireSwapchainTexture resize_hr w =
     (case sc_clientRect (swapChain w) of (rc_left, rc_top, rc_right, rc_bottom) \<Rightarrow>
      let width = rc_right - rc_left;
          height = rc_bottom - rc_top
      in if width = 0 \<or> height = 0 then Some (None, w)
         else
           (let resized =
                  (if width \<noteq> sc_descWidth (swapChain w) \<or> height \<noteq> sc_descHeight (swapChain w)
                   then
                     (let sc = swapChain w;
                          w1 = w\<lparr>waitIdleCalls := waitIdleCalls w + 1,
                                 deletedTextures := deletedTextures w @ sc_backbufferTextures sc,
                                 textures := delete_textures (sc_backbufferTextures sc) (textures w),
                                 swapChain := sc\<lparr>sc_backbufferTextures := []\<rparr>,
                                 resizeCalls := resizeCalls w @ [(sc_backBufferCount sc, width, height)]\<rparr>
                      in if resize_hr = DXGI_ERROR_DEVICE_REMOVED \<or> resize_hr = DXGI_ERROR_DEVICE_RESET
                         then Inl w1
                         else if resize_hr \<noteq> S_OK then Inl w1
                         else Inr (UpdateSwapChain
                                     (w1\<lparr>swapChain := (swapChain w1)\<lparr>sc_descWidth := width,
                                                                       sc_descHeight := height\<rparr>\<rparr>)))
                   else Inr w)
            in case resized of
                 Inl w1 \<Rightarrow> Some (None, w1)
               | Inr w2 \<Rightarrow>
                   (let sc = swapChain w2; i = sc_currentBackBufferIndex sc
                    in if \<not> i < length (sc_backbufferTextures sc) then None
                       else
                         (let swapChainTexture = sc_backbufferTextures sc ! i
                          in case TransitionResource swapChainTexture
                                    D3D12_RESOURCE_STATE_RENDER_TARGET True w2 of
                               None \<Rightarrow> None
                             | Some w3 \<Rightarrow>
                                 Some (Some swapChainTexture,
                                       w3\<lparr>cb_swapChains := cb_swapChains w3 @ [swapChainPtr w3]\<rparr>)))))"

text \<open>An 800 by 600 swapchain with two backbuffers whose window has been minimised.\<close>

definition minimized_world :: acquire_world where
  "minimized_world =
     \<lparr>swapChainPtr = 50,
      swapChain = \<lparr>sc_clientRect = (0, 0, 0, 0), sc_descWidth = 800, sc_descHeight = 600,
                    sc_descBufferCount = 2, sc_currentBackBufferIndex = 0,
                    sc_width = 800, sc_height = 600, sc_backBufferCount = 2,
                    sc_backbufferTextures = [10, 11]\<rparr>,
      textures = [10 \<mapsto> new_backbuffer 800 600 0, 11 \<mapsto> new_backbuffer 800 600 1],
      nextTexture = 12, cb_queueType = 0, resourceBarriers = [], flushedBarriers = [],
      cb_swapChains = [], waitIdleCalls = 0, resizeCalls = [], deletedTextures = []\<rparr>"

section \<open>Descriptor allocator (D3D12DescriptorAllocator)\<close>

text \<open>
  What a descriptor slot holds after one of the device's view-creation calls. An
  \<open>option\<close> of it is the content of a slot; \<open>None\<close> is indeterminate content: a slot
  of a newly created heap that was never written, or data copied out of a heap that
  had been destroyed.
\<close>

datatype descriptor =
    ConstantBufferView u64 u32  \<comment> \<open>\<open>BufferLocation\<close>, \<open>SizeInBytes\<close>\<close>
  | NullCBV
  | NullSRV
  | NullUAV
  | SamplerView nat  \<comment> \<open>the \<open>D3D12_SAMPLER_DESC\<close> of a sampler object\<close>
  | DefaultSampler

text \<open>
  The allocator object, and the part of the device it works on: \<open>dev_heaps\<close> maps the
  address of every live descriptor heap to its slots, \<open>dev_nextHeap\<close> is the address of
  the next heap to be created. \<open>CreateDescriptorHeap\<close> fails when asked for more slots
  than the device supports (\<open>dev_maxDescriptors\<close>, and \<open>dev_maxShaderVisible\<close> for a
  shader-visible heap).
  The allocator holds the only reference to its heaps, so \<open>Release()\<close> destroys a heap.
  \<open>numDescriptors\<close>, \<open>searchStart\<close>, \<open>numAllocatedDescriptors\<close> and
  \<open>DescriptorIndex\<close> are \<open>uint32_t\<close>: natural numbers below \<open>2 ^ 32\<close>, with the
  wrap-around of each addition and subtraction written out.
\<close>

record D3D12DescriptorAllocator =
  heap :: "ptr option"
  shaderVisibleHeap :: "ptr option"
  shaderVisible :: bool
  numDescriptors :: nat
  allocatedDescriptors :: "bool list"
  searchStart :: nat
  numAllocatedDescriptors :: nat
  dev_heaps :: "ptr \<Rightarrow> descriptor option list option"
  dev_nextHeap :: ptr
  dev_maxDescriptors :: nat
  dev_maxShaderVisible :: nat

definition kInvalidDescriptorIndex :: nat where
  "kInvalidDescriptorIndex = 2 ^ 32 - 1"

definition u32_add :: "nat \<Rightarrow> nat \<Rightarrow> nat" where
  "u32_add a b = (a + b) mod 2 ^ 32"

definition u32_sub :: "nat \<Rightarrow> nat \<Rightarrow> nat" where
  "u32_sub a b = (2 ^ 32 + a - b mod 2 ^ 32) mod 2 ^ 32"

text \<open>
  Modelled from the spec: \<open>vgpuNextPowerOfTwo\<close> is declared in \<open>vgpu_driver.h\<close>, which
  is not among the sources. The spec calls its result "the next power-of-two size
  \<open>\<ge>\<close>" its argument: the least power of two that is at least \<open>n\<close>.
\<close>

function next_pow2_from :: "nat \<Rightarrow> nat \<Rightarrow> nat" where
  "next_pow2_from p n = (if n \<le> p \<or> p = 0 then p else next_pow2_from (2 * p) n)"
  by pat_completeness auto
termination
  by (relation "measure (\<lambda>(p, n). n - p)") auto

declare next_pow2_from.simps [simp del]

definition vgpuNextPowerOfTwo :: "nat \<Rightarrow> nat" where
  "vgpuNextPowerOfTwo n = next_pow2_from 1 n"

text \<open>\<open>SAFE_RELEASE\<close> of a heap pointer: a non-null heap is destroyed.\<close>

definition release_heap ::
  "ptr option \<Rightarrow> (ptr \<Rightarrow> descriptor option list option) \<Rightarrow> (ptr \<Rightarrow> descriptor option list option)" where
  "release_heap h heaps = (case h of None \<Rightarrow> heaps | Some p \<Rightarrow> heaps(p := None))"

text \<open>\<open>std::vector<bool>::resize(n)\<close>: keep the first \<open>n\<close> elements, pad with \<open>false\<close>.\<close>

definition resize_flags :: "nat \<Rightarrow> bool list \<Rightarrow> bool list" where
  "resize_flags n xs = take n xs @ replicate (n - length xs) False"

text \<open>
  \<open>AllocateResources(numDescriptors_)\<close>. The result tells whether the \<open>HRESULT\<close> is
  \<open>S_OK\<close>. Both old heaps are released before anything is created.
\<close>

definition AllocateResources :: "nat \<Rightarrow> D3D12DescriptorAllocator \<Rightarrow> bool \<times> D3D12DescriptorAllocator" where
  "AllocateResources numDescriptors' a =
     (let a1 = a\<lparr>dev_heaps := release_heap (shaderVisibleHeap a) (release_heap (heap a) (dev_heaps a)),
                 heap := None, shaderVisibleHeap := None,
                 numDescriptors := numDescriptors'\<rparr>
      in if numDescriptors' > dev_maxDescriptors a1 then (False, a1)
         else
           (let h = dev_nextHeap a1;
                a2 = a1\<lparr>heap := Some h,
                        dev_heaps := (dev_heaps a1)(h \<mapsto> replicate numDescriptors' None),
                        dev_nextHeap := h + 1\<rparr>
            in if shaderVisible a2
               then
                 (if numDescriptors' > dev_maxShaderVisible a2 then (False, a2)
                  else
                    (let sv = dev_nextHeap a2;
                         a3 = a2\<lparr>shaderVisibleHeap := Some sv,
                                 dev_heaps := (dev_heaps a2)(sv \<mapsto> replicate numDescriptors' None),
                                 dev_nextHeap := sv + 1\<rparr>
                     in (True, a3\<lparr>allocatedDescriptors :=
                                     resize_flags numDescriptors' (allocatedDescriptors a3)\<rparr>)))
               else (True, a2\<lparr>allocatedDescriptors :=
                                 resize_flags numDescriptors' (allocatedDescriptors a2)\<rparr>)))"

text \<open>
  \<open>device->CopyDescriptorsSimple(n, dest start, src start, type)\<close> between heap
  starts: the first \<open>n\<close> slots of the destination take the content of the first \<open>n\<close>
  slots of the source. A source heap that has been destroyed yields indeterminate
  content.
\<close>

definition read_slots :: "nat \<Rightarrow> descriptor option list option \<Rightarrow> descriptor option list" where
  "read_slots n src =
     (case src of
        None \<Rightarrow> replicate n None
      | Some cs \<Rightarrow> take n cs @ replicate (n - length cs) None)"

definition CopyDescriptorsSimple ::
  "nat \<Rightarrow> ptr \<Rightarrow> ptr \<Rightarrow> (ptr \<Rightarrow> descriptor option list option) \<Rightarrow> (ptr \<Rightarrow> descriptor option list option)" where
  "CopyDescriptorsSimple n dst src heaps =
     (case heaps dst of
        None \<Rightarrow> heaps
      | Some ds \<Rightarrow> heaps(dst \<mapsto> take (length ds) (read_slots n (heaps src)) @ drop n ds))"

text \<open>
  \<open>Grow(minRequiredSize)\<close>. \<open>oldHeap\<close> is the raw pointer saved before
  \<open>AllocateResources\<close>, which releases that heap; both copies then read through it.
  \<open>None\<close>: \<open>oldHeap\<close> is null and is dereferenced.
\<close>

definition Grow :: "nat \<Rightarrow> D3D12DescriptorAllocator \<Rightarrow> (bool \<times> D3D12DescriptorAllocator) option" where
  "Grow minRequiredSize a =
     (let oldSize = numDescriptors a;
          newSize = vgpuNextPowerOfTwo minRequiredSize mod 2 ^ 32;
          oldHeap = heap a
      in case AllocateResources newSize a of
           (False, a1) \<Rightarrow> Some (False, a1)
         | (True, a1) \<Rightarrow>
             (case (oldHeap, heap a1) of
                (Some old, Some new) \<Rightarrow>
                  (let heaps1 = CopyDescriptorsSimple oldSize new old (dev_heaps a1);
                       heaps2 = (case shaderVisibleHeap a1 of
                                   None \<Rightarrow> heaps1
                                 | Some sv \<Rightarrow> CopyDescriptorsSimple oldSize sv old heaps1)
                   in Some (True, a1\<lparr>dev_heaps := heaps2\<rparr>))
              | _ \<Rightarrow> None))"

text \<open>
  The search loop of \<open>AllocateDescriptors\<close>: \<open>index\<close> runs from \<open>searchStart\<close> up to
  \<open>numDescriptors\<close>, \<open>freeCount\<close> counts the free slots seen in a row. The result is
  \<open>foundIndex = index - count + 1\<close> when a run is found.
\<close>

function find_free_run :: "bool list \<Rightarrow> nat \<Rightarrow> nat \<Rightarrow> nat \<Rightarrow> nat \<Rightarrow> nat option" where
  "find_free_run allocated numDesc cnt index freeCount =
     (if index < numDesc
      then
        (let freeCount' = (if allocated ! index then 0 else freeCount + 1)
         in if freeCount' \<ge> cnt then Some (u32_add (u32_sub index cnt) 1)
            else find_free_run allocated numDesc cnt (index + 1) freeCount')
      else None)"
  by pat_completeness auto
termination
  by (relation "measure (\<lambda>(allocated, numDesc, cnt, index, freeCount). numDesc - index)") auto

declare find_free_run.simps [simp del]

text \<open>\<open>allocatedDescriptors[index] = v\<close> for \<open>index\<close> from \<open>base\<close> while \<open>index < bound\<close>.\<close>

function set_flags :: "bool \<Rightarrow> nat \<Rightarrow> nat \<Rightarrow> bool list \<Rightarrow> bool list" where
  "set_flags v index bound flags =
     (if index < bound then set_flags v (index + 1) bound (flags[index := v]) else flags)"
  by pat_completeness auto
termination
  by (relation "measure (\<lambda>(v, index, bound, flags). bound - index)") auto

declare set_flags.simps [simp del]

text \<open>
  \<open>AllocateDescriptors(count)\<close>. The result is the returned index and the new state;
  \<open>None\<close> when \<open>Grow\<close> dereferences a null heap pointer.
\<close>

definition AllocateDescriptors ::
  "nat \<Rightarrow> D3D12DescriptorAllocator \<Rightarrow> (nat \<times> D3D12DescriptorAllocator) option" where
  "AllocateDescriptors cnt a =
     (let mark = (\<lambda>foundIndex a'.
            (foundIndex,
             a'\<lparr>allocatedDescriptors :=
                   set_flags True foundIndex (u32_add foundIndex cnt) (allocatedDescriptors a'),
                 numAllocatedDescriptors := u32_add (numAllocatedDescriptors a') cnt,
                 searchStart := u32_add foundIndex cnt\<rparr>))
      in case find_free_run (allocatedDescriptors a) (numDescriptors a) cnt (searchStart a) 0 of
           Some foundIndex \<Rightarrow> Some (mark foundIndex a)
         | None \<Rightarrow>
             (case Grow (u32_add (numDescriptors a) cnt) a of
                None \<Rightarrow> None
              | Some (False, a1) \<Rightarrow> Some (kInvalidDescriptorIndex, a1)
              | Some (True, a1) \<Rightarrow> Some (mark (numDescriptors a) a1)))"

text \<open>\<open>ReleaseDescriptors(baseIndex, count)\<close>.\<close>

definition ReleaseDescriptors :: "nat \<Rightarrow> nat \<Rightarrow> D3D12DescriptorAllocator \<Rightarrow> D3D12DescriptorAllocator" where
  "ReleaseDescriptors baseIndex cnt a =
     (if cnt = 0 then a
      else
        a\<lparr>allocatedDescriptors :=
            set_flags False baseIndex (u32_add baseIndex cnt) (allocatedDescriptors a),
          numAllocatedDescriptors := u32_sub (numAllocatedDescriptors a) cnt,
          searchStart := (if searchStart a > baseIndex then baseIndex else searchStart a)\<rparr>)"

text \<open>
  \<open>Init(device, heapType, numDescriptors)\<close> on a default-constructed allocator;
  \<open>VHR\<close> asserts that \<open>AllocateResources\<close> succeeded (\<open>None\<close> otherwise).
\<close>

definition new_allocator :: "bool \<Rightarrow> nat \<Rightarrow> nat \<Rightarrow> D3D12DescriptorAllocator" where
  "new_allocator sv maxDesc maxVisible =
     \<lparr>heap = None, shaderVisibleHeap = None, shaderVisible = sv, numDescriptors = 0,
      allocatedDescriptors = [], searchStart = 0, numAllocatedDescriptors = 0,
      dev_heaps = (\<lambda>p. None), dev_nextHeap = 1,
      dev_maxDescriptors = maxDesc, dev_maxShaderVisible = maxVisible\<rparr>"

definition Init :: "nat \<Rightarrow> D3D12DescriptorAllocator \<Rightarrow> D3D12DescriptorAllocator option" where
  "Init numDescriptors' a =
     (case AllocateResources numDescriptors' a of
        (True, a1) \<Rightarrow> Some a1
      | (False, a1) \<Rightarrow> None)"

text \<open>
  Writing a descriptor through \<open>GetCpuHandle(index)\<close>, reading one back, and
  \<open>CopyToShaderVisibleHeap(index, count)\<close>. A handle is the heap start plus
  \<open>index * stride\<close>; a write or copy outside the heap is undefined (\<open>None\<close>).
\<close>

definition write_descriptor :: "nat \<Rightarrow> descriptor \<Rightarrow> D3D12DescriptorAllocator \<Rightarrow> D3D12DescriptorAllocator option" where
  "write_descriptor index d a =
     (case heap a of
        None \<Rightarrow> None
      | Some h \<Rightarrow>
          (case dev_heaps a h of
             None \<Rightarrow> None
           | Some cs \<Rightarrow>
               if index < length cs
               then Some (a\<lparr>dev_heaps := (dev_heaps a)(h \<mapsto> cs[index := Some d])\<rparr>)
               else None))"

definition cpu_descriptor :: "D3D12DescriptorAllocator \<Rightarrow> nat \<Rightarrow> descriptor option" where
  "cpu_descriptor a index =
     (case heap a of
        None \<Rightarrow> None
      | Some h \<Rightarrow>
          (case dev_heaps a h of
             None \<Rightarrow> None
           | Some cs \<Rightarrow> if index < length cs then cs ! index else None))"

definition visible_descriptor :: "D3D12DescriptorAllocator \<Rightarrow> nat \<Rightarrow> descriptor option" where
  "visible_descriptor a index =
     (case shaderVisibleHeap a of
        None \<Rightarrow> None
      | Some h \<Rightarrow>
          (case dev_heaps a h of
             None \<Rightarrow> None
           | Some cs \<Rightarrow> if index < length cs then cs ! index else None))"

definition CopyToShaderVisibleHeap :: "nat \<Rightarrow> nat \<Rightarrow> D3D12DescriptorAllocator \<Rightarrow> D3D12DescriptorAllocator option" where
  "CopyToShaderVisibleHeap index cnt a =
     (case (heap a, shaderVisibleHeap a) of
        (Some h, Some sv) \<Rightarrow>
          (case (dev_heaps a h, dev_heaps a sv) of
             (Some cs, Some vs) \<Rightarrow>
               if index + cnt \<le> length cs \<and> index + cnt \<le> length vs
               then Some (a\<lparr>dev_heaps :=
                              (dev_heaps a)(sv \<mapsto> take index vs @ take cnt (drop index cs)
                                                     @ drop (index + cnt) vs)\<rparr>)
               else None
           | _ \<Rightarrow> None)
      | _ \<Rightarrow> None)"

subsection \<open>Well-formed allocator states and runs of allocator calls\<close>

text \<open>
  After \<open>Init\<close> the occupancy vector has \<open>numDescriptors\<close> elements, the search cursor
  is within it, and the heaps named by the allocator are live and have
  \<open>numDescriptors\<close> slots. The search loop and the marking loops index the vector
  without a bounds check; they stay inside it in such states.
\<close>

definition flags_wf :: "D3D12DescriptorAllocator \<Rightarrow> bool" where
  "flags_wf a =
     (length (allocatedDescriptors a) = numDescriptors a \<and>
      searchStart a \<le> numDescriptors a \<and>
      numDescriptors a < 2 ^ 32)"

definition heaps_wf :: "D3D12DescriptorAllocator \<Rightarrow> bool" where
  "heaps_wf a =
     (case heap a of
        None \<Rightarrow> False
      | Some h \<Rightarrow>
          h < dev_nextHeap a \<and> map_option length (dev_heaps a h) = Some (numDescriptors a) \<and>
          (if shaderVisible a
           then (case shaderVisibleHeap a of
                   None \<Rightarrow> False
                 | Some sv \<Rightarrow>
                     sv \<noteq> h \<and> sv < dev_nextHeap a \<and>
                     map_option length (dev_heaps a sv) = Some (numDescriptors a))
           else shaderVisibleHeap a = None))"


type_synonym alloc_run = "D3D12DescriptorAllocator \<times> (nat \<times> nat) list"



text \<open>The index set of a range, and a list of ranges without overlap.\<close>

definition range_set :: "nat \<times> nat \<Rightarrow> nat set" where
  "range_set r = {fst r ..< fst r + snd r}"

fun no_overlap :: "(nat \<times> nat) list \<Rightarrow> bool" where
  "no_overlap [] = True"
| "no_overlap (r # rs) = ((\<forall>s \<in> set rs. range_set r \<inter> range_set s = {}) \<and> no_overlap rs)"

text \<open>
  The invariant of a run: the state is well formed, every live range lies within the
  capacity and all its slots are marked allocated, and live ranges do not overlap.
\<close>

definition live_marked :: "D3D12DescriptorAllocator \<Rightarrow> nat \<times> nat \<Rightarrow> bool" where
  "live_marked a r =
     (fst r + snd r \<le> numDescriptors a \<and>
      (\<forall>k \<in> range_set r. allocatedDescriptors a ! k))"

definition alloc_inv :: "alloc_run \<Rightarrow> bool" where
  "alloc_inv s =
     (case s of (a, live) \<Rightarrow>
        flags_wf a \<and> heaps_wf a \<and> dev_maxDescriptors a < 2 ^ 32 \<and>
        list_all (live_marked a) live \<and> no_overlap live)"

text \<open>
  A heap of two slots, both allocated one at a time and written with a view; the next
  allocation has to grow the heap.
\<close>

definition full_heap_of_two :: "D3D12DescriptorAllocator option" where
  "full_heap_of_two =
     Option.bind (Init 2 (new_allocator True 1000 1000)) (\<lambda>a0.
     Option.bind (AllocateDescriptors 1 a0) (\<lambda>(i, a1).
     Option.bind (write_descriptor i (ConstantBufferView 4096 256) a1) (\<lambda>a2.
     Option.bind (AllocateDescriptors 1 a2) (\<lambda>(j, a3).
     write_descriptor j NullSRV a3))))"

section \<open>Upload contexts (D3D12Device::UploadAllocate, UploadSubmit)\<close>

text \<open>
  \<open>D3D12_UploadContext\<close>: raw pointers (null in a default-constructed context), the
  fence value to wait for, and the size of the staging buffer.
\<close>

record D3D12_UploadContext =
  commandAllocator :: "ptr option"
  commandList :: "ptr option"
  fence :: "ptr option"
  fenceValueSignaled :: u64
  uploadBufferSize :: nat
  uploadBuffer :: "ptr option"




text \<open>
  \<open>IsCompleted()\<close>: \<open>fence->GetCompletedValue() >= fenceValueSignaled\<close>; \<open>None\<close>
  when the fence pointer is null.
\<close>

definition IsCompleted :: "(ptr \<Rightarrow> u64) \<Rightarrow> D3D12_UploadContext \<Rightarrow> bool option" where
  "IsCompleted fv c = (case fence c of None \<Rightarrow> None | Some f \<Rightarrow> Some (fenceValueSignaled c \<le> fv f))"











subsection \<open>Runs of upload cycles\<close>

text \<open>
  A context on the free list fits a request when it is the kind the search loop
  accepts. A run keeps the contexts that are checked out (\<open>outstanding\<close>) and the
  largest number of them seen so far (\<open>high_water\<close>). A run is one in which every
  context on the free list has completed when an allocation is made, and in which a
  request made while the free list is not empty fits one of its contexts; \<open>None\<close>
  otherwise, and when a call does not return.
\<close>

definition fits :: "nat \<Rightarrow> (ptr \<Rightarrow> u64) \<Rightarrow> D3D12_UploadContext \<Rightarrow> bool" where
  "fits size' fv c =
     (uploadBuffer c \<noteq> None \<and> size' \<le> uploadBufferSize c \<and> IsCompleted fv c = Some True)"








section \<open>Bind groups (D3D12BindGroup::Update)\<close>

text \<open>
  \<open>VGPUBindGroupEntry\<close> of \<open>vgpu.h\<close>, and the objects its pointers refer to: a
  buffer with its size and GPU address, a sampler with its \<open>D3D12_SAMPLER_DESC\<close>.
\<close>

record VGPUBindGroupEntry =
  e_binding :: u32
  e_arrayElement :: u32
  e_buffer :: "ptr option"
  e_offset :: u64
  e_size :: u64
  e_sampler :: "ptr option"

definition VGPU_WHOLE_SIZE :: u64 where
  "VGPU_WHOLE_SIZE = - 1"

text \<open>
  The bind group with the two shader-visible allocators of its device
  (\<open>shaderResourceViewHeap\<close>, \<open>samplerHeap\<close>), its layout, its two table indices, and the
  buffer and sampler objects (size and GPU address of a buffer, sampler description of
  a sampler).
\<close>

record bind_world =
  shaderResourceViewHeap :: D3D12DescriptorAllocator
  samplerHeap :: D3D12DescriptorAllocator
  bindGroupLayout :: D3D12BindGroupLayout
  descriptorTableCbvUavSrv :: nat
  descriptorTableSamplers :: nat
  bufferObjects :: "ptr \<Rightarrow> (u64 \<times> u64) option"
  samplerObjects :: "ptr \<Rightarrow> nat option"

text \<open>
  The constant buffer view written for an entry with a buffer. \<open>AlignUp\<close> is declared in
  \<open>vgpu_driver.h\<close>, which is not among the sources; it is a parameter \<open>alignUp\<close> of the
  model. \<open>D3D12_CONSTANT_BUFFER_DATA_PLACEMENT_ALIGNMENT\<close> is 256.
\<close>

definition cbv_view :: "(u32 \<Rightarrow> u32 \<Rightarrow> u32) \<Rightarrow> VGPUBindGroupEntry \<Rightarrow> u64 \<Rightarrow> u64 \<Rightarrow> descriptor" where
  "cbv_view alignUp entry bufferSize gpuAddress =
     (let size' = (if e_size entry = 0 \<or> e_size entry = VGPU_WHOLE_SIZE then bufferSize
                   else e_size entry);
          offset = min (e_offset entry) bufferSize
      in ConstantBufferView (gpuAddress + offset) (alignUp (ucast size') 256))"

text \<open>
  The entry search for a slot of the CBV/UAV/SRV table, over the entries from
  \<open>startIndex\<close> on. An entry with another binding is skipped. In a CBV range the first
  entry with the binding ends the search: with a buffer it gives the view to write,
  without one nothing is found. In an SRV or UAV range nothing is done for a matching
  entry (the code that builds such views is compiled out) and the search goes on.
  The result is \<open>None\<close> for a dangling buffer pointer, \<open>Some None\<close> when nothing is
  found, \<open>Some (Some d)\<close> when the view \<open>d\<close> is to be written.
\<close>

fun find_cbv_entry ::
  "(u32 \<Rightarrow> u32 \<Rightarrow> u32) \<Rightarrow> (ptr \<Rightarrow> (u64 \<times> u64) option) \<Rightarrow> D3D12_DESCRIPTOR_RANGE_TYPE \<Rightarrow> u32
     \<Rightarrow> VGPUBindGroupEntry list \<Rightarrow> descriptor option option" where
  "find_cbv_entry alignUp bufs rt b [] = Some None"
| "find_cbv_entry alignUp bufs rt b (entry # entries) =
     (if e_binding entry \<noteq> b then find_cbv_entry alignUp bufs rt b entries
      else if rt = CBV
      then (case e_buffer entry of
              None \<Rightarrow> Some None
            | Some p \<Rightarrow>
                (case bufs p of
                   None \<Rightarrow> None
                 | Some (bufferSize, gpuAddress) \<Rightarrow>
                     Some (Some (cbv_view alignUp entry bufferSize gpuAddress))))
      else find_cbv_entry alignUp bufs rt b entries)"

text \<open>
  The null view written when nothing was found; for a \<open>SAMPLER\<close> range in this table
  the code only logs an error and writes nothing.
\<close>

fun null_view :: "D3D12_DESCRIPTOR_RANGE_TYPE \<Rightarrow> descriptor option" where
  "null_view SRV = Some NullSRV"
| "null_view UAV = Some NullUAV"
| "null_view CBV = Some NullCBV"
| "null_view SAMPLER = None"

text \<open>
  The slot index \<open>descriptorTableBaseIndex + range.OffsetInDescriptorsFromTableStart +
  index\<close> in \<open>uint32_t\<close> arithmetic.
\<close>

definition slot_index :: "nat \<Rightarrow> D3D12_DESCRIPTOR_RANGE1 \<Rightarrow> nat \<Rightarrow> nat" where
  "slot_index base rng index =
     (base + unat (OffsetInDescriptorsFromTableStart rng) + index) mod 2 ^ 32"

text \<open>
  The loop over the slots \<open>index = 0, 1, ...\<close> of one range of the CBV/UAV/SRV table;
  the state is the allocator (whose CPU heap is written) and \<open>startIndex\<close>, which
  advances by one after each slot for which an entry was found.
\<close>

fun fill_cbv_slots ::
  "(u32 \<Rightarrow> u32 \<Rightarrow> u32) \<Rightarrow> (ptr \<Rightarrow> (u64 \<times> u64) option) \<Rightarrow> VGPUBindGroupEntry list \<Rightarrow> nat
     \<Rightarrow> D3D12_DESCRIPTOR_RANGE1 \<Rightarrow> nat list
     \<Rightarrow> D3D12DescriptorAllocator \<times> nat \<Rightarrow> (D3D12DescriptorAllocator \<times> nat) option" where
  "fill_cbv_slots alignUp bufs entries base rng [] st = Some st"
| "fill_cbv_slots alignUp bufs entries base rng (index # rest) (a, startIndex) =
     (case find_cbv_entry alignUp bufs (RangeType rng)
             (BaseShaderRegister rng + of_nat index) (drop startIndex entries) of
        None \<Rightarrow> None
      | Some (Some d) \<Rightarrow>
          (case write_descriptor (slot_index base rng index) d a of
             None \<Rightarrow> None
           | Some a' \<Rightarrow>
               fill_cbv_slots alignUp bufs entries base rng rest (a', startIndex + 1))
      | Some None \<Rightarrow>
          (case null_view (RangeType rng) of
             None \<Rightarrow> fill_cbv_slots alignUp bufs entries base rng rest (a, startIndex)
           | Some d \<Rightarrow>
               (case write_descriptor (slot_index base rng index) d a of
                  None \<Rightarrow> None
                | Some a' \<Rightarrow>
                    fill_cbv_slots alignUp bufs entries base rng rest (a', startIndex))))"

fun fill_cbv_ranges ::
  "(u32 \<Rightarrow> u32 \<Rightarrow> u32) \<Rightarrow> (ptr \<Rightarrow> (u64 \<times> u64) option) \<Rightarrow> VGPUBindGroupEntry list \<Rightarrow> nat
     \<Rightarrow> D3D12_DESCRIPTOR_RANGE1 list
     \<Rightarrow> D3D12DescriptorAllocator \<times> nat \<Rightarrow> (D3D12DescriptorAllocator \<times> nat) option" where
  "fill_cbv_ranges alignUp bufs entries base [] st = Some st"
| "fill_cbv_ranges alignUp bufs entries base (rng # ranges) st =
     (case fill_cbv_slots alignUp bufs entries base rng [0..<unat (NumDescriptors rng)] st of
        None \<Rightarrow> None
      | Some st' \<Rightarrow> fill_cbv_ranges alignUp bufs entries base ranges st')"

text \<open>
  The sampler table. The entry search takes the first entry, from \<open>startIndex\<close> on,
  with the binding and a sampler. When one is found \<open>startIndex\<close> is incremented
  inside the search loop and once more after it; when none is found the default
  sampler is written and \<open>startIndex\<close> stays.
\<close>

fun find_sampler_entry ::
  "(ptr \<Rightarrow> nat option) \<Rightarrow> u32 \<Rightarrow> VGPUBindGroupEntry list \<Rightarrow> descriptor option option" where
  "find_sampler_entry smps b [] = Some None"
| "find_sampler_entry smps b (entry # entries) =
     (case e_sampler entry of
        None \<Rightarrow> find_sampler_entry smps b entries
      | Some p \<Rightarrow>
          if e_binding entry = b
          then (case smps p of None \<Rightarrow> None | Some desc \<Rightarrow> Some (Some (SamplerView desc)))
          else find_sampler_entry smps b entries)"

fun fill_sampler_slots ::
  "(ptr \<Rightarrow> nat option) \<Rightarrow> VGPUBindGroupEntry list \<Rightarrow> nat \<Rightarrow> D3D12_DESCRIPTOR_RANGE1 \<Rightarrow> nat list
     \<Rightarrow> D3D12DescriptorAllocator \<times> nat \<Rightarrow> (D3D12DescriptorAllocator \<times> nat) option" where
  "fill_sampler_slots smps entries base rng [] st = Some st"
| "fill_sampler_slots smps entries base rng (index # rest) (a, startIndex) =
     (case find_sampler_entry smps (BaseShaderRegister rng + of_nat index)
             (drop startIndex entries) of
        None \<Rightarrow> None
      | Some (Some d) \<Rightarrow>
          (case write_descriptor (slot_index base rng index) d a of
             None \<Rightarrow> None
           | Some a' \<Rightarrow> fill_sampler_slots smps entries base rng rest (a', startIndex + 2))
      | Some None \<Rightarrow>
          (case write_descriptor (slot_index base rng index) DefaultSampler a of
             None \<Rightarrow> None
           | Some a' \<Rightarrow> fill_sampler_slots smps entries base rng rest (a', startIndex)))"

fun fill_sampler_ranges ::
  "(ptr \<Rightarrow> nat option) \<Rightarrow> VGPUBindGroupEntry list \<Rightarrow> nat \<Rightarrow> D3D12_DESCRIPTOR_RANGE1 list
     \<Rightarrow> D3D12DescriptorAllocator \<times> nat \<Rightarrow> (D3D12DescriptorAllocator \<times> nat) option" where
  "fill_sampler_ranges smps entries base [] st = Some st"
| "fill_sampler_ranges smps entries base (rng # ranges) st =
     (case fill_sampler_slots smps entries base rng [0..<unat (NumDescriptors rng)] st of
        None \<Rightarrow> None
      | Some st' \<Rightarrow> fill_sampler_ranges smps entries base ranges st')"

text \<open>
  One table of \<open>Update\<close>: allocate \<open>n\<close> descriptors, write every slot of every range,
  copy the table to the shader-visible heap. The index returned by the allocator is
  not checked. The result is the table index and the allocator.
\<close>

definition update_table ::
  "(nat \<Rightarrow> D3D12DescriptorAllocator \<times> nat \<Rightarrow> (D3D12DescriptorAllocator \<times> nat) option)
     \<Rightarrow> nat \<Rightarrow> D3D12DescriptorAllocator \<Rightarrow> (nat \<times> D3D12DescriptorAllocator) option" where
  "update_table fill n a =
     (case AllocateDescriptors n a of
        None \<Rightarrow> None
      | Some (descriptorTableBaseIndex, a1) \<Rightarrow>
          (case fill descriptorTableBaseIndex (a1, 0) of
             None \<Rightarrow> None
           | Some (a2, startIndex) \<Rightarrow>
               (case CopyToShaderVisibleHeap descriptorTableBaseIndex n a2 of
                  None \<Rightarrow> None
                | Some a3 \<Rightarrow> Some (descriptorTableBaseIndex, a3))))"

text \<open>
  \<open>D3D12BindGroup::Update(entryCount, entries)\<close>. A table index of 0 counts as "no
  table" in the two release tests.
\<close>

definition Update ::
  "(u32 \<Rightarrow> u32 \<Rightarrow> u32) \<Rightarrow> VGPUBindGroupEntry list \<Rightarrow> bind_world \<Rightarrow> bind_world option" where
  "Update alignUp entries w =
     (let l = bindGroupLayout w;
          nCbv = unat (descriptorTableSizeCbvUavSrv l);
          nSmp = unat (descriptorTableSizeSamplers l);
          srv1 = (if descriptorTableCbvUavSrv w \<noteq> 0
                  then ReleaseDescriptors (descriptorTableCbvUavSrv w) nCbv (shaderResourceViewHeap w)
                  else shaderResourceViewHeap w);
          smp1 = (if descriptorTableSamplers w \<noteq> 0
                  then ReleaseDescriptors (descriptorTableSamplers w) nSmp (samplerHeap w)
                  else samplerHeap w);
          w1 = w\<lparr>shaderResourceViewHeap := srv1, samplerHeap := smp1\<rparr>
      in case (if nCbv > 0
               then (case update_table
                            (\<lambda>base. fill_cbv_ranges alignUp (bufferObjects w) entries base
                                      (cbvUavSrvDescriptorRanges l))
                            nCbv srv1 of
                       None \<Rightarrow> None
                     | Some (base, srv2) \<Rightarrow>
                         Some (w1\<lparr>shaderResourceViewHeap := srv2,
                                  descriptorTableCbvUavSrv := base\<rparr>))
               else Some w1) of
           None \<Rightarrow> None
         | Some w2 \<Rightarrow>
             if nSmp > 0
             then (case update_table
                          (\<lambda>base. fill_sampler_ranges (samplerObjects w) entries base
                                    (samplerDescriptorRanges l))
                          nSmp smp1 of
                     None \<Rightarrow> None
                   | Some (base, smp2) \<Rightarrow>
                       Some (w2\<lparr>samplerHeap := smp2, descriptorTableSamplers := base\<rparr>))
             else Some w2)"

subsection \<open>Layouts whose ranges tile their table\<close>

text \<open>
  The ranges of a table follow one another without gap or overlap from offset \<open>off\<close>
  and end at \<open>n\<close>.
\<close>

fun ranges_tile :: "nat \<Rightarrow> nat \<Rightarrow> D3D12_DESCRIPTOR_RANGE1 list \<Rightarrow> bool" where
  "ranges_tile off n [] = (off = n)"
| "ranges_tile off n (r # rs) =
     (unat (OffsetInDescriptorsFromTableStart r) = off \<and>
      ranges_tile (off + unat (NumDescriptors r)) n rs)"

definition layout_tiles :: "D3D12BindGroupLayout \<Rightarrow> bool" where
  "layout_tiles l =
     (ranges_tile 0 (unat (descriptorTableSizeCbvUavSrv l)) (cbvUavSrvDescriptorRanges l) \<and>
      ranges_tile 0 (unat (descriptorTableSizeSamplers l)) (samplerDescriptorRanges l) \<and>
      list_all (\<lambda>r. RangeType r \<noteq> SAMPLER) (cbvUavSrvDescriptorRanges l))"

text \<open>The bindings of the supplied entries.\<close>

definition supplied :: "VGPUBindGroupEntry list \<Rightarrow> u32 set" where
  "supplied entries = e_binding ` set entries"

subsection \<open>What a slot may hold after \<open>Update\<close>\<close>

text \<open>
  A slot of a CBV/UAV/SRV range for binding \<open>b\<close> holds the null view of the range's
  type, or, in a CBV range, the constant buffer view of a supplied entry with binding
  \<open>b\<close> and a buffer. A sampler slot holds the default sampler or the sampler of a
  supplied entry with binding \<open>b\<close>. Either way a slot whose binding no supplied entry
  has holds the null view or the default sampler.
\<close>

definition cbv_slot_content ::
  "(u32 \<Rightarrow> u32 \<Rightarrow> u32) \<Rightarrow> (ptr \<Rightarrow> (u64 \<times> u64) option) \<Rightarrow> VGPUBindGroupEntry list
     \<Rightarrow> D3D12_DESCRIPTOR_RANGE_TYPE \<Rightarrow> u32 \<Rightarrow> descriptor \<Rightarrow> bool" where
  "cbv_slot_content alignUp bufs entries rt b d =
     (null_view rt = Some d \<or>
      (rt = CBV \<and>
       list_ex (\<lambda>e. e_binding e = b \<and>
                  (case e_buffer e of
                     None \<Rightarrow> False
                   | Some p \<Rightarrow>
                       (case bufs p of
                          None \<Rightarrow> False
                        | Some (bufferSize, gpuAddress) \<Rightarrow>
                            d = cbv_view alignUp e bufferSize gpuAddress)))
         entries))"

definition sampler_slot_content ::
  "(ptr \<Rightarrow> nat option) \<Rightarrow> VGPUBindGroupEntry list \<Rightarrow> u32 \<Rightarrow> descriptor \<Rightarrow> bool" where
  "sampler_slot_content smps entries b d =
     (d = DefaultSampler \<or>
      list_ex (\<lambda>e. e_binding e = b \<and>
                 (case e_sampler e of
                    None \<Rightarrow> False
                  | Some p \<Rightarrow> (case smps p of None \<Rightarrow> False | Some desc \<Rightarrow> d = SamplerView desc)))
        entries)"

text \<open>An allocator whose heaps are live, shader visible and have \<open>L\<close> slots.\<close>

definition heap_ready :: "nat \<Rightarrow> D3D12DescriptorAllocator \<Rightarrow> bool" where
  "heap_ready L a = (heaps_wf a \<and> shaderVisible a \<and> numDescriptors a = L)"

section \<open>Deferred destruction: proofs\<close>

subsection \<open>The drain loop\<close>

lemma drain_takeWhile:
  "drain fc q = (map fst (takeWhile (eligible fc) q), dropWhile (eligible fc) q)"
  by (induction q) (auto simp: eligible_def)

lemma eligible_unat:
  "unat (snd e) + MAX_INFLIGHT_FRAMES < 2 ^ 64 \<Longrightarrow>
   eligible fc e \<longleftrightarrow> unat (snd e) + MAX_INFLIGHT_FRAMES < unat fc"
proof -
  assume a: "unat (snd e) + MAX_INFLIGHT_FRAMES < 2 ^ 64"
  have "unat (snd e + of_nat MAX_INFLIGHT_FRAMES) = unat (snd e) + MAX_INFLIGHT_FRAMES"
    using a by (simp add: unat_word_ariths MAX_INFLIGHT_FRAMES_def)
  then show ?thesis
    by (simp add: eligible_def word_less_nat_alt)
qed

lemma eligible_downward:
  assumes "unat (snd e) \<le> unat (snd e')"
    and "unat (snd e') + MAX_INFLIGHT_FRAMES < 2 ^ 64"
    and "eligible fc e'"
  shows "eligible fc e"
proof -
  have "unat (snd e) + MAX_INFLIGHT_FRAMES < 2 ^ 64"
    using assms(1,2) by simp
  with assms show ?thesis
    by (simp add: eligible_unat)
qed

lemma takeWhile_filter_sorted:
  "stamps_ok q \<Longrightarrow> takeWhile (eligible fc) q = filter (eligible fc) q"
proof (induction q)
  case Nil
  then show ?case by simp
next
  case (Cons e q)
  have tl_ok: "stamps_ok q"
    using Cons.prems by (simp add: stamps_ok_def)
  show ?case
  proof (cases "eligible fc e")
    case True
    then show ?thesis using Cons.IH tl_ok by simp
  next
    case False
    have "\<not> eligible fc e'" if "e' \<in> set q" for e'
    proof
      assume el: "eligible fc e'"
      have "unat (snd e) \<le> unat (snd e')"
        using Cons.prems that by (auto simp: stamps_ok_def)
      moreover have "unat (snd e') + MAX_INFLIGHT_FRAMES < 2 ^ 64"
        using tl_ok that by (auto simp: stamps_ok_def list_all_iff)
      ultimately have "eligible fc e"
        using el by (rule eligible_downward)
      with False show False by simp
    qed
    then have "filter (eligible fc) q = []"
      by (simp add: filter_empty_conv)
    with False show ?thesis by simp
  qed
qed

lemma dropWhile_filter_sorted:
  "stamps_ok q \<Longrightarrow> dropWhile (eligible fc) q = filter (\<lambda>e. \<not> eligible fc e) q"
proof (induction q)
  case Nil
  then show ?case by simp
next
  case (Cons e q)
  have tl_ok: "stamps_ok q"
    using Cons.prems by (simp add: stamps_ok_def)
  show ?case
  proof (cases "eligible fc e")
    case True
    then show ?thesis using Cons.IH tl_ok by simp
  next
    case False
    have "\<not> eligible fc e'" if "e' \<in> set q" for e'
    proof
      assume el: "eligible fc e'"
      have "unat (snd e) \<le> unat (snd e')"
        using Cons.prems that by (auto simp: stamps_ok_def)
      moreover have "unat (snd e') + MAX_INFLIGHT_FRAMES < 2 ^ 64"
        using tl_ok that by (auto simp: stamps_ok_def list_all_iff)
      ultimately have "eligible fc e"
        using el by (rule eligible_downward)
      with False show False by simp
    qed
    then have "filter (\<lambda>e. \<not> eligible fc e) q = q"
      by (simp add: filter_id_conv)
    with False show ?thesis by simp
  qed
qed

lemma drain_sorted:
  "stamps_ok q \<Longrightarrow>
   drain fc q = (map fst (filter (eligible fc) q), filter (\<lambda>e. \<not> eligible fc e) q)"
  by (simp add: drain_takeWhile takeWhile_filter_sorted dropWhile_filter_sorted)

lemma stamps_ok_snoc:
  assumes "stamps_ok q" and "list_all (\<lambda>e. unat (snd e) \<le> unat fc) q"
    and "unat fc + MAX_INFLIGHT_FRAMES < 2 ^ 64"
  shows "stamps_ok (q @ [(p, fc)])"
  using assms by (auto simp: stamps_ok_def sorted_append list_all_iff)

lemma stamps_ok_filter: "stamps_ok q \<Longrightarrow> stamps_ok (filter P q)"
  by (auto simp: stamps_ok_def list_all_iff sorted_filter)

lemma device_start_inv: "queue_inv device_start"
  by (simp add: queue_inv_def device_start_def stamps_ok_def)

lemma DeferDestroy_inv:
  assumes "queue_inv st" and "unat (frameCount st) + MAX_INFLIGHT_FRAMES < 2 ^ 64"
  shows "queue_inv (DeferDestroy r a st)"
  using assms
  by (auto simp: DeferDestroy_def queue_inv_def Let_def stamps_ok_snoc
           split: option.splits)

lemma ProcessDeletionQueue_inv:
  assumes "queue_inv st"
  shows "queue_inv (ProcessDeletionQueue st)"
  using assms
  by (auto simp: ProcessDeletionQueue_def queue_inv_def drain_sorted stamps_ok_filter
                 list_all_iff)

lemma begin_new_frame_inv:
  assumes "queue_inv st" and "unat (frameCount st) + 1 < 2 ^ 64"
  shows "queue_inv (begin_new_frame st)"
proof -
  have "unat (frameCount st + 1) = unat (frameCount st) + 1"
    using assms(2) by (simp add: unat_word_ariths)
  then have "queue_inv (st\<lparr>frameCount := frameCount st + 1\<rparr>)"
    using assms(1) by (auto simp: queue_inv_def list_all_iff)
  then show ?thesis
    unfolding begin_new_frame_def by (rule ProcessDeletionQueue_inv)
qed

subsection \<open>Claims on deferred destruction\<close>

text \<open>
  C9. \<open>DeferDestroy\<close> with a null resource returns the state unchanged: nothing is
  queued and nothing is released. With a non-null resource, while the device is
  shutting down or the native device is null, the resource and (when non-null) its
  allocation are released at once, in that order, and both deferred queues stay as
  they were.
\<close>

theorem DeferDestroy_null_or_shutdown:
  "DeferDestroy None a st = st \<and>
   (shuttingDown st \<or> device st = None \<longrightarrow>
      released (DeferDestroy (Some r) a st) =
        released st @ Resource r # (case a of None \<Rightarrow> [] | Some p \<Rightarrow> [Allocation p]) \<and>
      deferredReleases (DeferDestroy (Some r) a st) = deferredReleases st \<and>
      deferredAllocations (DeferDestroy (Some r) a st) = deferredAllocations st \<and>
      frameCount (DeferDestroy (Some r) a st) = frameCount st)"
  by (auto simp: DeferDestroy_def safe_release_allocation_def split: option.splits)

theorem DeferDestroy_null_or_shutdown_witness:
  "shuttingDown (device_start\<lparr>shuttingDown := True\<rparr>) \<and>
   DeferDestroy None (Some 6) (device_start\<lparr>shuttingDown := True\<rparr>)
     = device_start\<lparr>shuttingDown := True\<rparr> \<and>
   released (DeferDestroy (Some 5) (Some 6) (device_start\<lparr>shuttingDown := True\<rparr>))
     = [Resource 5, Allocation 6] \<and>
   deferredReleases (DeferDestroy (Some 5) (Some 6) (device_start\<lparr>shuttingDown := True\<rparr>)) = [] \<and>
   deferredAllocations (DeferDestroy (Some 5) (Some 6) (device_start\<lparr>shuttingDown := True\<rparr>)) = []"
  using DeferDestroy_null_or_shutdown
    [of "Some 6" "device_start\<lparr>shuttingDown := True\<rparr>" 5]
  by (simp add: device_start_def)

text \<open>
  C1, as the code has it. Let \<open>(h, f)\<close> be an entry of the resource queue, the queue's
  stamps in submission order, its handles distinct and \<open>h\<close> not yet released. Then one
  call of \<open>ProcessDeletionQueue\<close> releases \<open>h\<close> exactly when
  \<open>f + MAX_INFLIGHT_FRAMES < frameCount\<close>, that is when the frame count is more than
  \<open>MAX_INFLIGHT_FRAMES\<close> ahead of \<open>f\<close>; otherwise the entry stays queued and \<open>h\<close> is
  not released. In particular \<open>h\<close> is never released while
  \<open>frameCount - f \<le> MAX_INFLIGHT_FRAMES\<close>.
\<close>

theorem ProcessDeletionQueue_releases_iff:
  assumes ok: "stamps_ok (deferredReleases st)"
    and mem: "(h, f) \<in> set (deferredReleases st)"
    and dist: "distinct (map fst (deferredReleases st))"
    and fresh: "Resource h \<notin> set (released st)"
  shows "(Resource h \<in> set (released (ProcessDeletionQueue st))
            \<longleftrightarrow> unat f + MAX_INFLIGHT_FRAMES < unat (frameCount st)) \<and>
         ((h, f) \<in> set (deferredReleases (ProcessDeletionQueue st))
            \<longleftrightarrow> \<not> unat f + MAX_INFLIGHT_FRAMES < unat (frameCount st))"
proof -
  let ?fc = "frameCount st"
  let ?q = "deferredReleases st"
  have bound: "unat (snd (h, f)) + MAX_INFLIGHT_FRAMES < 2 ^ 64"
    using ok mem by (auto simp: stamps_ok_def list_all_iff)
  have el: "eligible ?fc (h, f) \<longleftrightarrow> unat f + MAX_INFLIGHT_FRAMES < unat ?fc"
    using eligible_unat [OF bound] by simp
  have only: "f' = f" if "(h, f') \<in> set ?q" for f'
    using dist mem that by (meson eq_key_imp_eq_value)
  have rel: "released (ProcessDeletionQueue st) =
               released st
               @ map Allocation (fst (drain ?fc (deferredAllocations st)))
               @ map Resource (map fst (filter (eligible ?fc) ?q))"
    by (simp add: ProcessDeletionQueue_def drain_sorted [OF ok] split: prod.splits)
  have rest: "deferredReleases (ProcessDeletionQueue st) = filter (\<lambda>e. \<not> eligible ?fc e) ?q"
    by (simp add: ProcessDeletionQueue_def drain_sorted [OF ok] split: prod.splits)
  have "Resource h \<in> set (released (ProcessDeletionQueue st))
          \<longleftrightarrow> (\<exists>f'. (h, f') \<in> set ?q \<and> eligible ?fc (h, f'))"
    using fresh unfolding rel by (auto simp: image_iff)
  also have "\<dots> \<longleftrightarrow> eligible ?fc (h, f)"
    using mem only by blast
  finally have first: "Resource h \<in> set (released (ProcessDeletionQueue st))
                         \<longleftrightarrow> unat f + MAX_INFLIGHT_FRAMES < unat ?fc"
    using el by simp
  have second: "(h, f) \<in> set (deferredReleases (ProcessDeletionQueue st))
                  \<longleftrightarrow> \<not> unat f + MAX_INFLIGHT_FRAMES < unat ?fc"
    unfolding rest using mem el by simp
  from first second show ?thesis by simp
qed

theorem ProcessDeletionQueue_releases_iff_witness:
  "stamps_ok (deferredReleases ((DeferDestroy (Some 7) None device_start)\<lparr>frameCount := 3\<rparr>)) \<and>
   (7, 0) \<in> set (deferredReleases ((DeferDestroy (Some 7) None device_start)\<lparr>frameCount := 3\<rparr>)) \<and>
   Resource 7 \<in> set (released (ProcessDeletionQueue
       ((DeferDestroy (Some 7) None device_start)\<lparr>frameCount := 3\<rparr>))) \<and>
   (7, 0) \<notin> set (deferredReleases (ProcessDeletionQueue
       ((DeferDestroy (Some 7) None device_start)\<lparr>frameCount := 3\<rparr>)))"
proof -
  let ?st = "(DeferDestroy (Some 7) None device_start)\<lparr>frameCount := 3\<rparr>"
  have q: "deferredReleases ?st = [(7, 0)]" and r: "released ?st = []"
    and fc: "frameCount ?st = 3"
    by (simp_all add: DeferDestroy_def device_start_def)
  have ok: "stamps_ok (deferredReleases ?st)"
    by (simp add: q stamps_ok_def MAX_INFLIGHT_FRAMES_def)
  have mem: "(7, 0) \<in> set (deferredReleases ?st)"
    by (simp add: q)
  have dist: "distinct (map fst (deferredReleases ?st))"
    by (simp add: q)
  have fresh: "Resource 7 \<notin> set (released ?st)"
    by (simp add: r)
  show ?thesis
    using ProcessDeletionQueue_releases_iff [OF ok mem dist fresh] ok mem
    by (simp add: fc MAX_INFLIGHT_FRAMES_def)
qed

text \<open>
  C1 as stated fails at the boundary: a handle deferred at frame 0 is still queued, and
  not released, after the frame count has reached 2 and \<open>ProcessDeletionQueue\<close> has
  run at that count (twice through \<open>Submit\<close>'s tail), although
  \<open>frameCount - 0 \<ge> MAX_INFLIGHT_FRAMES\<close>.
\<close>

theorem ProcessDeletionQueue_boundary_counterexample:
  "MAX_INFLIGHT_FRAMES \<le>
     unat (frameCount (begin_new_frame (begin_new_frame
             (DeferDestroy (Some 7) None device_start)))) - unat (0 :: u64) \<and>
   Resource 7 \<notin> set (released (ProcessDeletionQueue (begin_new_frame (begin_new_frame
             (DeferDestroy (Some 7) None device_start))))) \<and>
   deferredReleases (ProcessDeletionQueue (begin_new_frame (begin_new_frame
             (DeferDestroy (Some 7) None device_start)))) = [(7, 0)]"
  by (simp add: begin_new_frame_def ProcessDeletionQueue_def DeferDestroy_def
                device_start_def MAX_INFLIGHT_FRAMES_def)

section \<open>Command buffer pool and frame pacer: proofs\<close>

lemmas frame_eval =
  render_frame_def BeginCommandBuffer_def d3d12_start_def Let_def Submit_def
  idle_queue_def execute_and_signal_def MAX_INFLIGHT_FRAMES_def wait_frame_fence_def
  ProcessDeletionQueue_def frames_in_flight_def word_le_nat_alt word_less_nat_alt

text \<open>
  C8 does not hold of \<open>BeginCommandBuffer\<close>. A first frame checks out two command
  buffers (objects 100 and 101, both new) and submits them. In the next frame the pool
  already holds two buffers, so both checkouts take the reuse branch, and both return
  \<open>commandBuffersPool.back()\<close>, the object 101: two successive checkouts within one
  frame, with no \<open>Submit\<close> between them, yield the same command buffer.
\<close>

theorem BeginCommandBuffer_reuse_returns_same_buffer:
  "map_option
     (\<lambda>dev. (commandBuffersPool dev,
             fst (BeginCommandBuffer 0 dev),
             fst (BeginCommandBuffer 0 (snd (BeginCommandBuffer 0 dev)))))
     (render_frame (Suc 1) d3d12_start)
   = Some ([100, 101], 101, 101)"
  by (simp add: frame_eval)

text \<open>
  C4 does not hold of \<open>Submit\<close>. The frame fences are signalled to 1 and never set
  back to 0, so from the third use of a slot on \<open>GetCompletedValue() < 1\<close> is false and
  \<open>Submit\<close> no longer waits. After five frames in a row, with the GPU running only
  while the CPU waits for it, every queue holds three submitted frames whose fence
  signal the GPU has not reached, one more than \<open>MAX_INFLIGHT_FRAMES\<close>; all frame
  fences read 1.
\<close>

theorem Submit_exceeds_inflight_window:
  "map_option (\<lambda>dev. (map frames_in_flight (queues dev), map frameFences (queues dev),
                      frameCount dev))
     five_frames
   = Some ([3, 3, 3], [[1, 1], [1, 1], [1, 1]], 5)"
  by (simp add: five_frames_def frame_eval)


section \<open>Bind group layouts: proofs\<close>

subsection \<open>The assertions of the extend branch never fail\<close>

lemma layout_step_total:
  "loop_inv s \<Longrightarrow> \<exists>s'. layout_step e s = Some s' \<and> loop_inv s'"
  by (auto simp: layout_step_def loop_inv_def Let_def extend_last_range_def
           split: option.splits)

lemma layout_entries_total:
  "loop_inv s \<Longrightarrow> \<exists>s'. layout_entries es s = Some s' \<and> loop_inv s'"
proof (induction es arbitrary: s)
  case Nil
  then show ?case by simp
next
  case (Cons e es)
  from layout_step_total [OF Cons.prems, of e] obtain s1 where
    s1: "layout_step e s = Some s1" "loop_inv s1" by blast
  from Cons.IH [OF s1(2)] s1(1) show ?case by simp
qed

lemma CreateBindGroupLayout_returns: "\<exists>l. CreateBindGroupLayout es = Some l"
proof -
  have "loop_inv layout_loop_start"
    by (simp add: loop_inv_def layout_loop_start_def)
  from layout_entries_total [OF this, of es] show ?thesis
    by (auto simp: CreateBindGroupLayout_def)
qed

subsection \<open>When a range starts\<close>

lemma layout_entries_snoc:
  "layout_entries (es @ [e]) s =
     (case layout_entries es s of None \<Rightarrow> None | Some s' \<Rightarrow> layout_step e s')"
  by (induction es arbitrary: s) (auto split: option.splits)

lemma layout_step_current:
  "layout_step e s = Some s' \<Longrightarrow>
     currentType s' = Some (to_range_type (descriptorType e)) \<and> currentBinding s' = binding e"
  by (auto simp: layout_step_def Let_def split: if_splits option.splits)

lemma layout_entries_current:
  "es \<noteq> [] \<Longrightarrow> layout_entries es s = Some s' \<Longrightarrow>
     currentType s' = Some (to_range_type (descriptorType (last es))) \<and>
     currentBinding s' = binding (last es)"
proof (induction es arbitrary: s)
  case Nil
  then show ?case by simp
next
  case (Cons e es)
  then show ?case
    by (cases es) (auto split: option.splits dest: layout_step_current)
qed

lemma layout_step_range_total:
  assumes "layout_step e s = Some s'"
  shows "range_total (layout s') =
           (if Some (to_range_type (descriptorType e)) \<noteq> currentType s
               \<or> binding e \<noteq> currentBinding s + 1
            then Suc (range_total (layout s)) else range_total (layout s))"
  using assms
  by (auto simp: layout_step_def Let_def range_total_def extend_last_range_def
           split: if_splits option.splits)

text \<open>
  The first entry always starts a range. An entry \<open>e\<close> that follows \<open>es\<close> starts a
  new range exactly when its range type differs from that of the last entry of \<open>es\<close>
  or its binding is not that entry's binding plus one (in 32-bit arithmetic);
  otherwise the number of ranges stays as it is.
\<close>

lemma CreateBindGroupLayout_range_starts:
  assumes "es \<noteq> []"
    and "CreateBindGroupLayout es = Some l"
    and "CreateBindGroupLayout (es @ [e]) = Some l'"
  shows "range_total l' =
           (if breaks_range (last es) e then Suc (range_total l) else range_total l)"
proof -
  from assms(2) obtain s where s: "layout_entries es layout_loop_start = Some s"
    and l: "l = layout s"
    by (auto simp: CreateBindGroupLayout_def)
  from assms(3) s obtain s' where s': "layout_step e s = Some s'" and l': "l' = layout s'"
    by (auto simp: CreateBindGroupLayout_def layout_entries_snoc)
  from layout_entries_current [OF assms(1) s]
  have cur: "currentType s = Some (to_range_type (descriptorType (last es)))"
    "currentBinding s = binding (last es)" by simp_all
  show ?thesis
    using layout_step_range_total [OF s'] cur
    by (auto simp: l l' breaks_range_def)
qed

lemma CreateBindGroupLayout_first_range:
  "CreateBindGroupLayout [e] = Some l \<Longrightarrow> range_total l = 1"
  by (auto simp: CreateBindGroupLayout_def layout_step_def layout_loop_start_def
                 empty_layout_def Let_def range_total_def split: if_splits)

subsection \<open>The recorded table sizes\<close>

lemma layout_step_sizes_unit:
  assumes "layout_step e s = Some s'" and "count e = 1"
  shows "descriptorTableSizeSamplers (layout s') =
           descriptorTableSizeSamplers (layout s) + count_sum (filter is_sampler_entry [e])
       \<and> descriptorTableSizeCbvUavSrv (layout s') =
           descriptorTableSizeCbvUavSrv (layout s)
           + count_sum (filter (\<lambda>e. \<not> is_sampler_entry e) [e])"
  using assms
  by (auto simp: layout_step_def Let_def is_sampler_entry_def count_sum_def
           split: if_splits option.splits)

lemma layout_entries_sizes_unit:
  assumes "layout_entries es s = Some s'" and "\<forall>e \<in> set es. count e = 1"
  shows "descriptorTableSizeSamplers (layout s') =
           descriptorTableSizeSamplers (layout s) + count_sum (filter is_sampler_entry es)
       \<and> descriptorTableSizeCbvUavSrv (layout s') =
           descriptorTableSizeCbvUavSrv (layout s)
           + count_sum (filter (\<lambda>e. \<not> is_sampler_entry e) es)"
  using assms
proof (induction es arbitrary: s)
  case Nil
  then show ?case by (simp add: count_sum_def)
next
  case (Cons e es)
  from Cons.prems(1) obtain s1 where s1: "layout_step e s = Some s1"
    and rest: "layout_entries es s1 = Some s'"
    by (auto split: option.splits)
  have c: "count e = 1" using Cons.prems(2) by simp
  from layout_step_sizes_unit [OF s1 c] Cons.IH [OF rest] Cons.prems(2)
  show ?case
    by (auto simp: count_sum_def)
qed

text \<open>
  With every \<open>count\<close> equal to 1 the recorded sizes are the sums of the counts of the
  two families.
\<close>

lemma CreateBindGroupLayout_sizes_unit_counts:
  assumes "CreateBindGroupLayout es = Some l" and "\<forall>e \<in> set es. count e = 1"
  shows "descriptorTableSizeSamplers l = count_sum (filter is_sampler_entry es)
       \<and> descriptorTableSizeCbvUavSrv l = count_sum (filter (\<lambda>e. \<not> is_sampler_entry e) es)"
proof -
  from assms(1) obtain s where s: "layout_entries es layout_loop_start = Some s"
    and l: "l = layout s"
    by (auto simp: CreateBindGroupLayout_def)
  from layout_entries_sizes_unit [OF s assms(2)] show ?thesis
    by (simp add: l layout_loop_start_def empty_layout_def)
qed

text \<open>
  C6 does not hold of \<open>CreateBindGroupLayout\<close>: the branch that starts a range sets
  \<open>NumDescriptors\<close> to \<open>entry.count\<close> but advances the table size by one, while the
  branch that extends a range adds \<open>entry.count\<close> to both. For the single entry
  (binding 0, count 4, constant buffer) the layout has one CBV range of 4 descriptors
  and records a CBV/UAV/SRV table size of 1, where the counts of the family sum to 4.
\<close>

theorem CreateBindGroupLayout_size_ignores_first_count:
  "CreateBindGroupLayout [\<lparr>binding = 0, count = 4, descriptorType = ConstantBuffer\<rparr>]
   = Some \<lparr>descriptorTableSizeCbvUavSrv = 1, descriptorTableSizeSamplers = 0,
           cbvUavSrvDescriptorRanges =
             [\<lparr>RangeType = CBV, NumDescriptors = 4, BaseShaderRegister = 0,
               RegisterSpace = D3D12_DRIVER_RESERVED_REGISTER_SPACE_VALUES_START,
               Flags = 4, OffsetInDescriptorsFromTableStart = 0\<rparr>],
           samplerDescriptorRanges = []\<rparr>
   \<and> count_sum (filter (\<lambda>e. \<not> is_sampler_entry e)
        [\<lparr>binding = 0, count = 4, descriptorType = ConstantBuffer\<rparr>]) = 4"
  by (simp add: CreateBindGroupLayout_def layout_step_def layout_loop_start_def
                empty_layout_def Let_def count_sum_def is_sampler_entry_def)


section \<open>Swapchain acquire: proofs\<close>

text \<open>
  C10. When the client rectangle of the window has width 0 or height 0,
  \<open>AcquireSwapchainTexture\<close> returns \<open>nullptr\<close> and leaves everything as it was: no
  \<open>WaitIdle\<close>, no \<open>ResizeBuffers\<close>, no wrapper deleted, no barrier recorded or
  flushed, the swapchain not added to the command buffer's list.
\<close>

theorem AcquireSwapchainTexture_minimized:
  assumes "sc_clientRect (swapChain w) = (rc_left, rc_top, rc_right, rc_bottom)"
    and "rc_right - rc_left = 0 \<or> rc_bottom - rc_top = 0"
  shows "AcquireSwapchainTexture hr w = Some (None, w)"
  using assms by (auto simp: AcquireSwapchainTexture_def Let_def)

theorem AcquireSwapchainTexture_minimized_witness:
  "sc_clientRect (swapChain minimized_world) = (0, 0, 0, 0) \<and>
   AcquireSwapchainTexture S_OK minimized_world = Some (None, minimized_world)"
proof -
  have r: "sc_clientRect (swapChain minimized_world) = (0, 0, 0, 0)"
    by (simp add: minimized_world_def)
  have z: "(0::u32) - 0 = 0 \<or> (0::u32) - 0 = 0"
    by simp
  from AcquireSwapchainTexture_minimized [OF r z, of S_OK] r show ?thesis
    by simp
qed


section \<open>Descriptor allocator: proofs\<close>

subsection \<open>32-bit index arithmetic\<close>




lemma u32_add_small: "a + b < 2 ^ 32 \<Longrightarrow> u32_add a b = a + b"
  unfolding u32_add_def by (rule mod_less)

subsection \<open>The marking loops\<close>

lemma set_flags_length [simp]: "length (set_flags v i b fl) = length fl"
proof (induction v i b fl rule: set_flags.induct)
  case (1 v index bound flags)
  then show ?case by (subst set_flags.simps) simp
qed

lemma set_flags_nth:
  "k < length fl \<Longrightarrow> set_flags v i b fl ! k = (if i \<le> k \<and> k < b then v else fl ! k)"
proof (induction v i b fl rule: set_flags.induct)
  case (1 v index bound flags)
  show ?case
  proof (cases "index < bound")
    case True
    have "set_flags v index bound flags ! k = set_flags v (index + 1) bound (flags[index := v]) ! k"
      using True by (subst set_flags.simps) simp
    also have "\<dots> = (if index + 1 \<le> k \<and> k < bound then v else flags[index := v] ! k)"
      using "1.IH" [OF True] "1.prems" by simp
    also have "\<dots> = (if index \<le> k \<and> k < bound then v else flags ! k)"
      using True "1.prems" by (auto simp: nth_list_update)
    finally show ?thesis .
  next
    case False
    then show ?thesis by (subst set_flags.simps) auto
  qed
qed

subsection \<open>The search loop\<close>



subsection \<open>The next power of two\<close>

lemma next_pow2_from_ge: "0 < p \<Longrightarrow> n \<le> next_pow2_from p n"
proof (induction p n rule: next_pow2_from.induct)
  case (1 p n)
  show ?case
  proof (cases "n \<le> p")
    case True
    then show ?thesis by (subst next_pow2_from.simps) simp
  next
    case False
    then have "next_pow2_from p n = next_pow2_from (2 * p) n"
      using "1.prems" by (subst next_pow2_from.simps) simp
    moreover have "n \<le> next_pow2_from (2 * p) n"
      using "1.IH" False "1.prems" by simp
    ultimately show ?thesis by simp
  qed
qed

lemma next_pow2_from_pow: "\<exists>k. next_pow2_from (2 ^ a) n = 2 ^ k"
proof (induction "2 ^ a :: nat" n arbitrary: a rule: next_pow2_from.induct)
  case (1 n)
  show ?case
  proof (cases "n \<le> 2 ^ a")
    case True
    then have "next_pow2_from (2 ^ a) n = 2 ^ a"
      by (subst next_pow2_from.simps) simp
    then show ?thesis by blast
  next
    case False
    then have "next_pow2_from (2 ^ a) n = next_pow2_from (2 ^ Suc a) n"
      by (subst next_pow2_from.simps) simp
    moreover have "\<exists>k. next_pow2_from (2 ^ Suc a) n = 2 ^ k"
      using "1.hyps" [of "Suc a"] False by simp
    ultimately show ?thesis by simp
  qed
qed

lemma next_pow2_from_least:
  "n \<le> 2 ^ k \<Longrightarrow> a \<le> k \<Longrightarrow> next_pow2_from (2 ^ a) n \<le> 2 ^ k"
proof (induction "2 ^ a :: nat" n arbitrary: a rule: next_pow2_from.induct)
  case (1 n)
  show ?case
  proof (cases "n \<le> 2 ^ a")
    case True
    then have "next_pow2_from (2 ^ a) n = 2 ^ a"
      by (subst next_pow2_from.simps) simp
    then show ?thesis using "1.prems"(2) by simp
  next
    case False
    then have lt: "(2::nat) ^ a < 2 ^ k" using "1.prems"(1) by linarith
    then have "a < k" by simp
    then have le: "Suc a \<le> k" by simp
    have "next_pow2_from (2 ^ a) n = next_pow2_from (2 ^ Suc a) n"
      using False by (subst next_pow2_from.simps) simp
    moreover have "next_pow2_from (2 ^ Suc a) n \<le> 2 ^ k"
      using "1.hyps" [of "Suc a"] False "1.prems"(1) le by simp
    ultimately show ?thesis by simp
  qed
qed

lemma vgpuNextPowerOfTwo_ge: "n \<le> vgpuNextPowerOfTwo n"
  unfolding vgpuNextPowerOfTwo_def by (rule next_pow2_from_ge) simp

lemma vgpuNextPowerOfTwo_pow: "\<exists>k. vgpuNextPowerOfTwo n = 2 ^ k"
  using next_pow2_from_pow [of 0 n] by (simp add: vgpuNextPowerOfTwo_def)

lemma vgpuNextPowerOfTwo_least: "n \<le> 2 ^ k \<Longrightarrow> vgpuNextPowerOfTwo n \<le> 2 ^ k"
  using next_pow2_from_least [of n k 0] by (simp add: vgpuNextPowerOfTwo_def)

lemma vgpuNextPowerOfTwo_u32:
  assumes "n \<le> 2 ^ 31"
  shows "vgpuNextPowerOfTwo n mod 2 ^ 32 = vgpuNextPowerOfTwo n"
proof -
  have "vgpuNextPowerOfTwo n \<le> 2 ^ 31"
    using assms by (rule vgpuNextPowerOfTwo_least)
  also have "(2::nat) ^ 31 < 2 ^ 32" by simp
  finally show ?thesis by (rule mod_less)
qed

lemma vgpuNextPowerOfTwo_doubles:
  assumes "2 ^ a < n"
  shows "2 * 2 ^ a \<le> vgpuNextPowerOfTwo n"
proof -
  obtain k where k: "vgpuNextPowerOfTwo n = 2 ^ k"
    using vgpuNextPowerOfTwo_pow by blast
  have "(2::nat) ^ a < 2 ^ k"
    using assms vgpuNextPowerOfTwo_ge [of n] k by linarith
  then have "a < k" by simp
  then have "Suc a \<le> k" by simp
  then have "(2::nat) ^ Suc a \<le> 2 ^ k"
    by (rule power_increasing) simp
  then show ?thesis using k by simp
qed

subsection \<open>Heap creation and growth\<close>

lemma AllocateResources_True:
  assumes "AllocateResources n a = (True, a')"
  shows "numDescriptors a' = n \<and>
         allocatedDescriptors a' = resize_flags n (allocatedDescriptors a) \<and>
         searchStart a' = searchStart a \<and>
         numAllocatedDescriptors a' = numAllocatedDescriptors a \<and>
         dev_maxDescriptors a' = dev_maxDescriptors a \<and>
         dev_maxShaderVisible a' = dev_maxShaderVisible a \<and>
         shaderVisible a' = shaderVisible a \<and>
         n \<le> dev_maxDescriptors a \<and>
         heap a' = Some (dev_nextHeap a) \<and>
         dev_heaps a' (dev_nextHeap a) = Some (replicate n None) \<and>
         (\<forall>p. heap a = Some p \<and> p < dev_nextHeap a \<longrightarrow> dev_heaps a' p = None) \<and>
         (shaderVisible a \<longrightarrow> shaderVisibleHeap a' = Some (dev_nextHeap a + 1) \<and>
              dev_heaps a' (dev_nextHeap a + 1) = Some (replicate n None)) \<and>
         (\<not> shaderVisible a \<longrightarrow> shaderVisibleHeap a' = None) \<and>
         heaps_wf a'"
  using assms
  by (auto simp: AllocateResources_def Let_def heaps_wf_def release_heap_def
           split: if_splits option.splits)

lemma AllocateResources_False:
  assumes "AllocateResources n a = (False, a')"
  shows "n > dev_maxDescriptors a \<or> (shaderVisible a \<and> n > dev_maxShaderVisible a)"
  using assms
  by (auto simp: AllocateResources_def Let_def split: if_splits)

text \<open>
  Copying out of a destroyed heap into a heap whose slots are all indeterminate
  changes nothing.
\<close>

lemma CopyDescriptorsSimple_from_destroyed:
  assumes "heaps src = None" and "heaps dst = Some (replicate n None)"
  shows "CopyDescriptorsSimple k dst src heaps = heaps"
proof -
  have "take n (replicate k None) @ drop k (replicate n (None :: descriptor option))
          = replicate (min n k + (n - k)) None"
    by (simp add: replicate_add [symmetric] min_def)
  also have "min n k + (n - k) = n" by simp
  finally have "take n (read_slots k None) @ drop k (replicate n None) = replicate n None"
    by (simp add: read_slots_def)
  then have "CopyDescriptorsSimple k dst src heaps = heaps(dst \<mapsto> replicate n None)"
    using assms by (simp add: CopyDescriptorsSimple_def)
  also have "\<dots> = heaps"
    using assms(2) by (simp add: fun_upd_idem)
  finally show ?thesis .
qed

text \<open>
  In a well-formed state \<open>Grow\<close> returns, and what it returns is the state left by
  \<open>AllocateResources\<close>: the old heap is gone when the two copies read it.
\<close>

lemma Grow_wf:
  assumes "heaps_wf a"
  shows "Grow m a = Some (AllocateResources (vgpuNextPowerOfTwo m mod 2 ^ 32) a)"
proof -
  let ?n = "vgpuNextPowerOfTwo m mod 2 ^ 32"
  obtain ok a1 where r: "AllocateResources ?n a = (ok, a1)"
    by (cases "AllocateResources ?n a")
  from assms obtain old where old: "heap a = Some old" "old < dev_nextHeap a"
    by (auto simp: heaps_wf_def split: option.splits)
  show ?thesis
  proof (cases ok)
    case False
    then show ?thesis using r by (simp add: Grow_def Let_def)
  next
    case True
    with r have r': "AllocateResources ?n a = (True, a1)" by simp
    note f = AllocateResources_True [OF r']
    let ?new = "dev_nextHeap a"
    have gone: "dev_heaps a1 old = None" using f old by blast
    have fresh: "dev_heaps a1 ?new = Some (replicate ?n None)" using f by blast
    have c1: "CopyDescriptorsSimple (numDescriptors a) ?new old (dev_heaps a1) = dev_heaps a1"
      using CopyDescriptorsSimple_from_destroyed
              [of "dev_heaps a1" old ?new ?n "numDescriptors a"] gone fresh
      by simp
    have c2: "(case shaderVisibleHeap a1 of
                 None \<Rightarrow> CopyDescriptorsSimple (numDescriptors a) ?new old (dev_heaps a1)
               | Some sv \<Rightarrow>
                   CopyDescriptorsSimple (numDescriptors a) sv old
                     (CopyDescriptorsSimple (numDescriptors a) ?new old (dev_heaps a1)))
              = dev_heaps a1"
    proof (cases "shaderVisible a")
      case True
      then have sv: "shaderVisibleHeap a1 = Some (?new + 1)"
        and "dev_heaps a1 (?new + 1) = Some (replicate ?n None)"
        using f by blast+
      then have "CopyDescriptorsSimple (numDescriptors a) (?new + 1) old (dev_heaps a1)
                   = dev_heaps a1"
        using CopyDescriptorsSimple_from_destroyed
                [of "dev_heaps a1" old "?new + 1" ?n "numDescriptors a"] gone
        by simp
      then show ?thesis by (simp add: sv c1)
    next
      case False
      then have "shaderVisibleHeap a1 = None" using f by blast
      then show ?thesis by (simp add: c1)
    qed
    have h1: "heap a1 = Some ?new" using f by blast
    show ?thesis
      using r' old(1) h1 c2 by (simp add: Grow_def Let_def)
  qed
qed

subsection \<open>\<open>AllocateDescriptors\<close> by cases\<close>


lemma AllocateDescriptors_grow:
  assumes "find_free_run (allocatedDescriptors a) (numDescriptors a) cnt (searchStart a) 0 = None"
    and "heaps_wf a"
    and "AllocateResources (vgpuNextPowerOfTwo (u32_add (numDescriptors a) cnt) mod 2 ^ 32) a
           = (True, a1)"
  shows "AllocateDescriptors cnt a =
           Some (numDescriptors a,
                 a1\<lparr>allocatedDescriptors :=
                       set_flags True (numDescriptors a) (u32_add (numDescriptors a) cnt)
                         (allocatedDescriptors a1),
                     numAllocatedDescriptors := u32_add (numAllocatedDescriptors a1) cnt,
                     searchStart := u32_add (numDescriptors a) cnt\<rparr>)"
  using assms by (simp add: AllocateDescriptors_def Grow_wf)

lemma AllocateDescriptors_grow_fails:
  assumes "find_free_run (allocatedDescriptors a) (numDescriptors a) cnt (searchStart a) 0 = None"
    and "heaps_wf a"
    and "AllocateResources (vgpuNextPowerOfTwo (u32_add (numDescriptors a) cnt) mod 2 ^ 32) a
           = (False, a1)"
  shows "AllocateDescriptors cnt a = Some (kInvalidDescriptorIndex, a1)"
  using assms by (simp add: AllocateDescriptors_def Grow_wf)

subsection \<open>Live ranges\<close>




lemma range_setI: "k \<in> range_set (b, n) \<longleftrightarrow> b \<le> k \<and> k < b + n"
  by (auto simp: range_set_def)

lemma live_marked_iff:
  "live_marked a (b, n) \<longleftrightarrow>
     b + n \<le> numDescriptors a \<and> (\<forall>k. b \<le> k \<and> k < b + n \<longrightarrow> allocatedDescriptors a ! k)"
  by (auto simp: live_marked_def range_set_def)

lemma live_markedD:
  assumes "list_all (live_marked a) live" and "(b, m) \<in> set live"
  shows "b + m \<le> numDescriptors a" and "\<And>k. b \<le> k \<Longrightarrow> k < b + m \<Longrightarrow> allocatedDescriptors a ! k"
proof -
  have "live_marked a (b, m)"
    using assms by (auto simp: list_all_iff)
  then show "b + m \<le> numDescriptors a" and "\<And>k. b \<le> k \<Longrightarrow> k < b + m \<Longrightarrow> allocatedDescriptors a ! k"
    by (auto simp: live_marked_iff)
qed

lemma mark_keeps_inv:
  assumes inv: "list_all (live_marked a) live" "no_overlap live"
    and len: "length (allocatedDescriptors a) = numDescriptors a"
    and fits: "j + n \<le> numDescriptors a"
    and free: "\<forall>k. j \<le> k \<and> k < j + n \<longrightarrow> \<not> allocatedDescriptors a ! k"
    and a': "numDescriptors a' = numDescriptors a"
       "allocatedDescriptors a' = set_flags True j (j + n) (allocatedDescriptors a)"
  shows "list_all (live_marked a') ((j, n) # live) \<and> no_overlap ((j, n) # live)"
proof -
  have nth: "allocatedDescriptors a' ! k = (if j \<le> k \<and> k < j + n then True else allocatedDescriptors a ! k)"
    if "k < numDescriptors a" for k
    using that len by (simp only: a'(2) set_flags_nth)
  have new: "live_marked a' (j, n)"
    unfolding live_marked_iff
  proof (intro conjI allI impI)
    show "j + n \<le> numDescriptors a'" using fits a'(1) by simp
  next
    fix k assume k: "j \<le> k \<and> k < j + n"
    then have "k < numDescriptors a" using fits by linarith
    from nth [OF this] k show "allocatedDescriptors a' ! k" by simp
  qed
  have old: "live_marked a' r" if "r \<in> set live" for r
  proof -
    obtain b m where r: "r = (b, m)" by (cases r)
    have mem: "(b, m) \<in> set live" using that r by simp
    note d = live_markedD [OF inv(1) mem]
    have "live_marked a' (b, m)"
      unfolding live_marked_iff
    proof (intro conjI allI impI)
      show "b + m \<le> numDescriptors a'" using d(1) a'(1) by simp
    next
      fix k assume k: "b \<le> k \<and> k < b + m"
      then have "k < numDescriptors a" using d(1) by linarith
      then have "allocatedDescriptors a' ! k =
                   (if j \<le> k \<and> k < j + n then True else allocatedDescriptors a ! k)"
        by (rule nth)
      moreover have "allocatedDescriptors a ! k" using d(2) k by blast
      ultimately show "allocatedDescriptors a' ! k" by simp
    qed
    then show ?thesis by (simp add: r)
  qed
  have disj: "range_set (j, n) \<inter> range_set r = {}" if "r \<in> set live" for r
  proof -
    obtain b m where r: "r = (b, m)" by (cases r)
    have mem: "(b, m) \<in> set live" using that r by simp
    note d = live_markedD [OF inv(1) mem]
    have "False" if "k \<in> range_set (j, n)" "k \<in> range_set (b, m)" for k
    proof -
      from that have k: "j \<le> k" "k < j + n" "b \<le> k" "k < b + m"
        by (simp_all add: range_setI)
      have "allocatedDescriptors a ! k" using d(2) k by blast
      moreover have "\<not> allocatedDescriptors a ! k" using free k by blast
      ultimately show False by simp
    qed
    then show ?thesis unfolding r by blast
  qed
  have "list_all (live_marked a') live"
    using old by (auto simp: list_all_iff)
  moreover have "\<forall>s \<in> set live. range_set (j, n) \<inter> range_set s = {}"
    using disj by blast
  ultimately show ?thesis
    using new inv(2) by auto
qed

subsection \<open>The invariant is kept by every call\<close>

lemma heaps_wf_cong:
  assumes "heap a' = heap a" "shaderVisibleHeap a' = shaderVisibleHeap a"
    "shaderVisible a' = shaderVisible a" "numDescriptors a' = numDescriptors a"
    "dev_heaps a' = dev_heaps a" "dev_nextHeap a' = dev_nextHeap a"
  shows "heaps_wf a' = heaps_wf a"
  by (simp only: heaps_wf_def assms)


lemma resize_flags_grow:
  "length al \<le> N \<Longrightarrow> resize_flags N al = al @ replicate (N - length al) False"
  by (simp add: resize_flags_def)

lemma Allocate_grow_inv:
  assumes inv: "alloc_inv (a, live)"
    and nf: "find_free_run (allocatedDescriptors a) (numDescriptors a) n (searchStart a) 0 = None"
    and small: "numDescriptors a + n \<le> 2 ^ 31"
    and res: "AllocateDescriptors n a = Some (idx, a')"
    and valid: "idx \<noteq> kInvalidDescriptorIndex"
  shows "idx = numDescriptors a \<and> alloc_inv (a', (idx, n) # live) \<and>
         numDescriptors a' = vgpuNextPowerOfTwo (numDescriptors a + n) \<and>
         allocatedDescriptors a' =
           set_flags True (numDescriptors a) (numDescriptors a + n)
             (allocatedDescriptors a @ replicate (numDescriptors a' - numDescriptors a) False)"
proof -
  from inv have fw: "flags_wf a" and hw: "heaps_wf a" and mx: "dev_maxDescriptors a < 2 ^ 32"
    and lm: "list_all (live_marked a) live" and no: "no_overlap live"
    by (simp_all add: alloc_inv_def)
  from fw have len: "length (allocatedDescriptors a) = numDescriptors a"
    by (simp add: flags_wf_def)
  let ?nd = "numDescriptors a"
  let ?N = "vgpuNextPowerOfTwo (?nd + n)"
  have lt32: "?nd + n < 2 ^ 32"
  proof -
    have "(2::nat) ^ 31 < 2 ^ 32" by simp
    with small show ?thesis by linarith
  qed
  have add: "u32_add ?nd n = ?nd + n"
    using lt32 by (rule u32_add_small)
  have N32: "?N mod 2 ^ 32 = ?N"
    using small by (rule vgpuNextPowerOfTwo_u32)
  have Nge: "?nd + n \<le> ?N" by (rule vgpuNextPowerOfTwo_ge)
  have Nle: "?N \<le> 2 ^ 31" using small by (rule vgpuNextPowerOfTwo_least)
  have Nlt: "?N < 2 ^ 32"
  proof -
    have "(2::nat) ^ 31 < 2 ^ 32" by simp
    with Nle show ?thesis by linarith
  qed
  obtain ok a1 where r: "AllocateResources ?N a = (ok, a1)"
    by (cases "AllocateResources ?N a")
  have ok: ok
  proof (rule ccontr)
    assume "\<not> ok"
    then have "AllocateResources (vgpuNextPowerOfTwo (u32_add ?nd n) mod 2 ^ 32) a = (False, a1)"
      using r by (simp only: add N32 simp_thms)
    from AllocateDescriptors_grow_fails [OF nf hw this] res valid show False by simp
  qed
  then have r': "AllocateResources (vgpuNextPowerOfTwo (u32_add ?nd n) mod 2 ^ 32) a = (True, a1)"
    using r by (simp only: add N32 simp_thms)
  have r'': "AllocateResources ?N a = (True, a1)" using r ok by simp
  note f = AllocateResources_True [OF r'']
  from AllocateDescriptors_grow [OF nf hw r'] res
  have idx: "idx = ?nd"
    and a': "a' = a1\<lparr>allocatedDescriptors :=
                       set_flags True ?nd (u32_add ?nd n) (allocatedDescriptors a1),
                     numAllocatedDescriptors := u32_add (numAllocatedDescriptors a1) n,
                     searchStart := u32_add ?nd n\<rparr>"
    by simp_all
  have nd1: "numDescriptors a1 = ?N" using f by blast
  have al1: "allocatedDescriptors a1 = allocatedDescriptors a @ replicate (?N - ?nd) False"
  proof -
    have "allocatedDescriptors a1 = resize_flags ?N (allocatedDescriptors a)" using f by blast
    moreover have "length (allocatedDescriptors a) \<le> ?N" using len Nge by linarith
    ultimately show ?thesis by (simp add: resize_flags_grow len)
  qed
  have len1: "length (allocatedDescriptors a1) = numDescriptors a1"
    using Nge by (simp add: al1 nd1 len)
  have lm1: "list_all (live_marked a1) live"
    unfolding list_all_iff
  proof
    fix r assume rin: "r \<in> set live"
    obtain b m where rr: "r = (b, m)" by (cases r)
    have mem: "(b, m) \<in> set live" using rin rr by simp
    note d = live_markedD [OF lm mem]
    have "live_marked a1 (b, m)"
      unfolding live_marked_iff
    proof (intro conjI allI impI)
      show "b + m \<le> numDescriptors a1" using d(1) Nge nd1 by linarith
    next
      fix k assume k: "b \<le> k \<and> k < b + m"
      then have "k < length (allocatedDescriptors a)" using d(1) len by linarith
      then have "allocatedDescriptors a1 ! k = allocatedDescriptors a ! k"
        by (simp add: al1 nth_append)
      moreover have "allocatedDescriptors a ! k" using d(2) k by blast
      ultimately show "allocatedDescriptors a1 ! k" by simp
    qed
    then show "live_marked a1 r" by (simp add: rr)
  qed
  have fits1: "?nd + n \<le> numDescriptors a1" using Nge nd1 by simp
  have free1: "\<forall>k. ?nd \<le> k \<and> k < ?nd + n \<longrightarrow> \<not> allocatedDescriptors a1 ! k"
  proof (intro allI impI)
    fix k assume k: "?nd \<le> k \<and> k < ?nd + n"
    then have "k - ?nd < ?N - ?nd" using Nge by linarith
    then have "replicate (?N - ?nd) False ! (k - ?nd) = False" by (rule nth_replicate)
    moreover have "allocatedDescriptors a1 ! k = replicate (?N - ?nd) False ! (k - ?nd)"
      using k by (simp add: al1 nth_append len)
    ultimately show "\<not> allocatedDescriptors a1 ! k" by simp
  qed
  have nd': "numDescriptors a' = numDescriptors a1"
    and al': "allocatedDescriptors a' = set_flags True ?nd (?nd + n) (allocatedDescriptors a1)"
    and ss': "searchStart a' = ?nd + n"
    by (simp_all add: a' add)
  from mark_keeps_inv [OF lm1 no len1 fits1 free1 nd' al']
  have live': "list_all (live_marked a') ((?nd, n) # live)" "no_overlap ((?nd, n) # live)"
    by blast+
  have fw': "flags_wf a'"
    using len1 Nlt fits1 by (simp add: flags_wf_def nd' al' ss' nd1)
  have "heaps_wf a1" using f by blast
  then have hw': "heaps_wf a'"
    by (subst heaps_wf_cong [of a' a1]) (simp_all add: a')
  have mx': "dev_maxDescriptors a' < 2 ^ 32"
    using mx f by (simp add: a')
  have "alloc_inv (a', (?nd, n) # live)"
    using fw' hw' mx' live' by (simp add: alloc_inv_def)
  then show ?thesis
    using idx nd' nd1 al' al1 by simp
qed






subsection \<open>Growth\<close>

lemmas alloc_eval =
  Init_def AllocateResources_def new_allocator_def Let_def release_heap_def resize_flags_def
  AllocateDescriptors_def find_free_run.simps set_flags.simps u32_add_def u32_sub_def
  ReleaseDescriptors_def kInvalidDescriptorIndex_def Grow_def vgpuNextPowerOfTwo_def
  next_pow2_from.simps CopyDescriptorsSimple_def read_slots_def

lemma replicate_4: "replicate 4 x = [x, x, x, x]"
  by (simp add: numeral_eq_Suc)

lemma replicate_2: "replicate 2 x = [x, x]"
  by (simp add: numeral_eq_Suc)

text \<open>
  What growth keeps and what it gives: the returned index is the old capacity, the new
  capacity is the least power of two that holds the old capacity plus the request, and
  the occupancy marks below the old capacity are as before.
\<close>

lemma AllocateDescriptors_growth:
  assumes inv: "alloc_inv (a, live)"
    and nf: "find_free_run (allocatedDescriptors a) (numDescriptors a) n (searchStart a) 0 = None"
    and small: "numDescriptors a + n \<le> 2 ^ 31"
    and res: "AllocateDescriptors n a = Some (idx, a')"
    and valid: "idx \<noteq> kInvalidDescriptorIndex"
  shows "idx = numDescriptors a \<and> idx + n \<le> numDescriptors a' \<and>
         numDescriptors a' = vgpuNextPowerOfTwo (numDescriptors a + n) \<and>
         (\<exists>k. numDescriptors a' = 2 ^ k) \<and>
         (\<forall>k. numDescriptors a + n \<le> 2 ^ k \<longrightarrow> numDescriptors a' \<le> 2 ^ k) \<and>
         (\<forall>e. numDescriptors a = 2 ^ e \<and> 0 < n \<longrightarrow> 2 * numDescriptors a \<le> numDescriptors a') \<and>
         (\<forall>i < numDescriptors a. allocatedDescriptors a' ! i = allocatedDescriptors a ! i)"
proof -
  note g = Allocate_grow_inv [OF inv nf small res valid]
  let ?nd = "numDescriptors a"
  from inv have len: "length (allocatedDescriptors a) = ?nd"
    by (simp add: alloc_inv_def flags_wf_def)
  have idx: "idx = ?nd" and N: "numDescriptors a' = vgpuNextPowerOfTwo (?nd + n)"
    and al': "allocatedDescriptors a' =
                set_flags True ?nd (?nd + n)
                  (allocatedDescriptors a @ replicate (numDescriptors a' - ?nd) False)"
    using g by blast+
  have ge: "?nd + n \<le> numDescriptors a'"
    unfolding N by (rule vgpuNextPowerOfTwo_ge)
  have pow: "\<exists>k. numDescriptors a' = 2 ^ k"
    unfolding N by (rule vgpuNextPowerOfTwo_pow)
  have least: "\<forall>k. ?nd + n \<le> 2 ^ k \<longrightarrow> numDescriptors a' \<le> 2 ^ k"
    unfolding N using vgpuNextPowerOfTwo_least by blast
  have dbl: "\<forall>e. ?nd = 2 ^ e \<and> 0 < n \<longrightarrow> 2 * ?nd \<le> numDescriptors a'"
  proof (intro allI impI)
    fix e assume e: "?nd = 2 ^ e \<and> 0 < n"
    then have "2 ^ e < ?nd + n" by linarith
    from vgpuNextPowerOfTwo_doubles [OF this] e show "2 * ?nd \<le> numDescriptors a'"
      unfolding N by simp
  qed
  have keep: "\<forall>i < ?nd. allocatedDescriptors a' ! i = allocatedDescriptors a ! i"
  proof (intro allI impI)
    fix i assume i: "i < ?nd"
    then have "i < length (allocatedDescriptors a @ replicate (numDescriptors a' - ?nd) False)"
      using len by simp
    then have "allocatedDescriptors a' ! i =
                 (if ?nd \<le> i \<and> i < ?nd + n then True
                  else (allocatedDescriptors a @ replicate (numDescriptors a' - ?nd) False) ! i)"
      by (simp only: al' set_flags_nth)
    then show "allocatedDescriptors a' ! i = allocatedDescriptors a ! i"
      using i len by (simp add: nth_append)
  qed
  show ?thesis using idx ge N pow least dbl keep by simp
qed

text \<open>
  After growth every slot of the new CPU heap is indeterminate: the old heap had been
  released when \<open>Grow\<close> copied out of it.
\<close>

lemma AllocateDescriptors_growth_contents:
  assumes inv: "alloc_inv (a, live)"
    and nf: "find_free_run (allocatedDescriptors a) (numDescriptors a) n (searchStart a) 0 = None"
    and res: "AllocateDescriptors n a = Some (idx, a')"
    and valid: "idx \<noteq> kInvalidDescriptorIndex"
  shows "cpu_descriptor a' i = None"
proof -
  from inv have hw: "heaps_wf a" by (simp add: alloc_inv_def)
  let ?N = "vgpuNextPowerOfTwo (u32_add (numDescriptors a) n) mod 2 ^ 32"
  obtain ok a1 where r: "AllocateResources ?N a = (ok, a1)"
    by (cases "AllocateResources ?N a")
  have ok: ok
  proof (rule ccontr)
    assume "\<not> ok"
    then have "AllocateResources ?N a = (False, a1)" using r by simp
    from AllocateDescriptors_grow_fails [OF nf hw this] res valid show False by simp
  qed
  then have r': "AllocateResources ?N a = (True, a1)" using r by simp
  note f = AllocateResources_True [OF r']
  from AllocateDescriptors_grow [OF nf hw r'] res
  have "heap a' = heap a1" and "dev_heaps a' = dev_heaps a1" by auto
  moreover have "heap a1 = Some (dev_nextHeap a)"
    and "dev_heaps a1 (dev_nextHeap a) = Some (replicate ?N None)"
    using f by blast+
  ultimately show ?thesis
    by (simp add: cpu_descriptor_def)
qed

subsection \<open>Claims on the descriptor allocator\<close>



text \<open>
  C3 does not hold of \<open>Grow\<close> as far as the descriptor contents go. A heap of two
  slots holds a constant buffer view at index 0 and a null SRV at index 1. The third
  allocation grows the heap: it returns index 2 (the old capacity), the capacity
  becomes 4 and the occupancy marks of indices 0 and 1 are kept, but the contents of
  indices 0 and 1 are indeterminate afterwards. \<open>AllocateResources\<close> has released the
  old heap before \<open>Grow\<close> copies the old descriptors out of it through the saved raw
  pointer.
\<close>

theorem Grow_reads_released_heap:
  "map_option (\<lambda>a. (numDescriptors a, allocatedDescriptors a, cpu_descriptor a 0, cpu_descriptor a 1))
     full_heap_of_two
   = Some (2, [True, True], Some (ConstantBufferView 4096 256), Some NullSRV) \<and>
   map_option (\<lambda>(i, a). (i, numDescriptors a, allocatedDescriptors a,
                          cpu_descriptor a 0, cpu_descriptor a 1))
     (Option.bind full_heap_of_two (AllocateDescriptors 1))
   = Some (2, 4, [True, True, True, False], None, None)"
  by (simp add: full_heap_of_two_def alloc_eval replicate_2 replicate_4
                write_descriptor_def cpu_descriptor_def)


section \<open>Upload contexts: proofs\<close>













subsection \<open>Claim on upload reuse\<close>





section \<open>Bind groups: proofs\<close>

subsection \<open>Writing a slot\<close>

lemma heap_readyD:
  assumes "heap_ready L a"
  shows "\<exists>h sv cs vs. heap a = Some h \<and> shaderVisibleHeap a = Some sv \<and> sv \<noteq> h \<and>
           h < dev_nextHeap a \<and> sv < dev_nextHeap a \<and>
           dev_heaps a h = Some cs \<and> length cs = L \<and>
           dev_heaps a sv = Some vs \<and> length vs = L \<and>
           shaderVisible a \<and> numDescriptors a = L"
proof -
  from assms have wf: "heaps_wf a" and sv: "shaderVisible a" and nd: "numDescriptors a = L"
    by (simp_all add: heap_ready_def)
  from wf obtain h where h: "heap a = Some h"
    by (cases "heap a") (simp_all add: heaps_wf_def)
  from wf h sv obtain s where s: "shaderVisibleHeap a = Some s"
    by (cases "shaderVisibleHeap a") (simp_all add: heaps_wf_def)
  from wf h sv s nd have f: "h < dev_nextHeap a" "s \<noteq> h" "s < dev_nextHeap a"
    "map_option length (dev_heaps a h) = Some L" "map_option length (dev_heaps a s) = Some L"
    by (simp_all add: heaps_wf_def)
  from f(4) obtain cs where "dev_heaps a h = Some cs" "length cs = L" by auto
  moreover from f(5) obtain vs where "dev_heaps a s = Some vs" "length vs = L" by auto
  ultimately show ?thesis using h s f sv nd by blast
qed

lemma heap_readyI:
  assumes "heap a = Some h" "shaderVisibleHeap a = Some sv" "sv \<noteq> h"
    "h < dev_nextHeap a" "sv < dev_nextHeap a"
    "dev_heaps a h = Some cs" "length cs = L" "dev_heaps a sv = Some vs" "length vs = L"
    "shaderVisible a" "numDescriptors a = L"
  shows "heap_ready L a"
  using assms by (simp add: heap_ready_def heaps_wf_def)

lemma write_descriptor_ready:
  assumes "heap_ready L a" and "k < L"
  shows "\<exists>a'. write_descriptor k d a = Some a' \<and> heap_ready L a' \<and>
              (\<forall>j. cpu_descriptor a' j = (if j = k then Some d else cpu_descriptor a j))"
proof -
  from heap_readyD [OF assms(1)] obtain h sv cs vs where
    f: "heap a = Some h" "shaderVisibleHeap a = Some sv" "sv \<noteq> h"
       "h < dev_nextHeap a" "sv < dev_nextHeap a"
       "dev_heaps a h = Some cs" "length cs = L" "dev_heaps a sv = Some vs" "length vs = L"
       "shaderVisible a" "numDescriptors a = L"
    by blast
  let ?a' = "a\<lparr>dev_heaps := (dev_heaps a)(h \<mapsto> cs[k := Some d])\<rparr>"
  have w: "write_descriptor k d a = Some ?a'"
    using f assms(2) by (simp add: write_descriptor_def)
  have r: "heap_ready L ?a'"
  proof (rule heap_readyI [where h = h and sv = sv and cs = "cs[k := Some d]" and vs = vs])
    show "dev_heaps ?a' sv = Some vs" using f by simp
  qed (use f in simp_all)
  have c: "cpu_descriptor ?a' j = (if j = k then Some d else cpu_descriptor a j)" for j
    using f assms(2) by (simp add: cpu_descriptor_def nth_list_update)
  show ?thesis using w r c by blast
qed

subsection \<open>Filling the CBV/UAV/SRV table\<close>

lemma list_ex_drop: "list_ex P (drop n xs) \<Longrightarrow> list_ex P xs"
  by (auto simp: list_ex_iff dest: in_set_dropD)

lemma find_cbv_entry_found:
  "find_cbv_entry al bufs rt b es = Some (Some d) \<Longrightarrow> cbv_slot_content al bufs es rt b d"
proof (induction es)
  case Nil
  then show ?case by simp
next
  case (Cons e es)
  show ?case
  proof (cases "e_binding e = b \<and> rt = CBV")
    case True
    with Cons.prems show ?thesis
      by (auto simp: cbv_slot_content_def split: option.splits)
  next
    case False
    then have "find_cbv_entry al bufs rt b es = Some (Some d)"
      using Cons.prems by (auto split: if_splits)
    from Cons.IH [OF this] show ?thesis
      by (auto simp: cbv_slot_content_def)
  qed
qed

lemma cbv_slot_content_drop:
  "cbv_slot_content al bufs (drop n es) rt b d \<Longrightarrow> cbv_slot_content al bufs es rt b d"
  unfolding cbv_slot_content_def using list_ex_drop by blast

lemma slot_index_plain:
  "base + unat (OffsetInDescriptorsFromTableStart r) + i < 2 ^ 32 \<Longrightarrow>
   slot_index base r i = base + unat (OffsetInDescriptorsFromTableStart r) + i"
  unfolding slot_index_def by (rule mod_less)

lemma fill_cbv_slots_spec:
  assumes "fill_cbv_slots al bufs es base r [i0..<n] (a, si) = Some (a', si')"
    and "heap_ready L a"
    and "base + unat (OffsetInDescriptorsFromTableStart r) + n \<le> L"
    and "L < 2 ^ 32"
    and "RangeType r \<noteq> SAMPLER"
  shows "heap_ready L a' \<and>
         (\<forall>k. \<not> (base + unat (OffsetInDescriptorsFromTableStart r) + i0 \<le> k \<and>
                  k < base + unat (OffsetInDescriptorsFromTableStart r) + n)
               \<longrightarrow> cpu_descriptor a' k = cpu_descriptor a k) \<and>
         (\<forall>i. i0 \<le> i \<and> i < n \<longrightarrow>
            (\<exists>d. cpu_descriptor a' (base + unat (OffsetInDescriptorsFromTableStart r) + i) = Some d \<and>
                 cbv_slot_content al bufs es (RangeType r) (BaseShaderRegister r + of_nat i) d))"
  using assms
proof (induction "n - i0" arbitrary: i0 a si)
  case 0
  then have "[i0..<n] = []" by simp
  with "0.prems" show ?case by auto
next
  case (Suc m)
  let ?off = "unat (OffsetInDescriptorsFromTableStart r)"
  let ?slot = "base + ?off + i0"
  from Suc.hyps(2) have lt: "i0 < n" by simp
  then have upt: "[i0..<n] = i0 # [Suc i0..<n]" by (rule upt_conv_Cons)
  have slotL: "?slot < L" using lt Suc.prems(3) by linarith
  have slot: "slot_index base r i0 = ?slot"
    using slotL Suc.prems(4) by (intro slot_index_plain) linarith
  obtain d where
    w_content: "cbv_slot_content al bufs es (RangeType r) (BaseShaderRegister r + of_nat i0) d"
    and rest: "\<exists>a1 s1. write_descriptor ?slot d a = Some a1 \<and>
                 fill_cbv_slots al bufs es base r [Suc i0..<n] (a1, s1) = Some (a', si')"
  proof (cases "find_cbv_entry al bufs (RangeType r) (BaseShaderRegister r + of_nat i0) (drop si es)")
    case None
    with Suc.prems(1) show ?thesis by (simp add: upt)
  next
    case (Some res)
    show ?thesis
    proof (cases res)
      case None
      obtain d where d: "null_view (RangeType r) = Some d"
        using Suc.prems(5) by (cases "RangeType r") simp_all
      have c: "cbv_slot_content al bufs es (RangeType r) (BaseShaderRegister r + of_nat i0) d"
        using d by (simp add: cbv_slot_content_def)
      from Suc.prems(1) Some None d
      have "\<exists>a1 s1. write_descriptor ?slot d a = Some a1 \<and>
                 fill_cbv_slots al bufs es base r [Suc i0..<n] (a1, s1) = Some (a', si')"
        by (auto simp: upt slot split: option.splits)
      with c that show ?thesis by blast
    next
      case (Some d)
      have "cbv_slot_content al bufs (drop si es) (RangeType r) (BaseShaderRegister r + of_nat i0) d"
        using \<open>find_cbv_entry al bufs (RangeType r) (BaseShaderRegister r + of_nat i0) (drop si es) = Some res\<close>
          Some by (intro find_cbv_entry_found) simp
      then have c: "cbv_slot_content al bufs es (RangeType r) (BaseShaderRegister r + of_nat i0) d"
        by (rule cbv_slot_content_drop)
      from Suc.prems(1) \<open>find_cbv_entry al bufs (RangeType r) (BaseShaderRegister r + of_nat i0) (drop si es) = Some res\<close> Some
      have "\<exists>a1 s1. write_descriptor ?slot d a = Some a1 \<and>
                 fill_cbv_slots al bufs es base r [Suc i0..<n] (a1, s1) = Some (a', si')"
        by (auto simp: upt slot split: option.splits)
      with c that show ?thesis by blast
    qed
  qed
  from rest obtain a1 s1 where w: "write_descriptor ?slot d a = Some a1"
    and f: "fill_cbv_slots al bufs es base r [Suc i0..<n] (a1, s1) = Some (a', si')" by blast
  from write_descriptor_ready [OF Suc.prems(2) slotL, of d] w
  have r1: "heap_ready L a1"
    and c1: "\<forall>j. cpu_descriptor a1 j = (if j = ?slot then Some d else cpu_descriptor a j)"
    by auto
  have m: "m = n - Suc i0" using Suc.hyps(2) by simp
  note IH = Suc.hyps(1) [OF m f r1 Suc.prems(3) Suc.prems(4) Suc.prems(5)]
  from IH have R: "heap_ready L a'"
    and U: "\<forall>k. \<not> (base + ?off + Suc i0 \<le> k \<and> k < base + ?off + n)
                 \<longrightarrow> cpu_descriptor a' k = cpu_descriptor a1 k"
    and W: "\<forall>i. Suc i0 \<le> i \<and> i < n \<longrightarrow>
            (\<exists>d. cpu_descriptor a' (base + ?off + i) = Some d \<and>
                 cbv_slot_content al bufs es (RangeType r) (BaseShaderRegister r + of_nat i) d)"
    by blast+
  have U': "\<forall>k. \<not> (base + ?off + i0 \<le> k \<and> k < base + ?off + n)
                 \<longrightarrow> cpu_descriptor a' k = cpu_descriptor a k"
  proof (intro allI impI)
    fix k assume k: "\<not> (base + ?off + i0 \<le> k \<and> k < base + ?off + n)"
    then have "\<not> (base + ?off + Suc i0 \<le> k \<and> k < base + ?off + n)" by linarith
    then have "cpu_descriptor a' k = cpu_descriptor a1 k" using U by blast
    moreover have "k \<noteq> ?slot" using k lt by linarith
    ultimately show "cpu_descriptor a' k = cpu_descriptor a k" using c1 by simp
  qed
  have W': "\<forall>i. i0 \<le> i \<and> i < n \<longrightarrow>
            (\<exists>d. cpu_descriptor a' (base + ?off + i) = Some d \<and>
                 cbv_slot_content al bufs es (RangeType r) (BaseShaderRegister r + of_nat i) d)"
  proof (intro allI impI)
    fix i assume i: "i0 \<le> i \<and> i < n"
    show "\<exists>d. cpu_descriptor a' (base + ?off + i) = Some d \<and>
                 cbv_slot_content al bufs es (RangeType r) (BaseShaderRegister r + of_nat i) d"
    proof (cases "i = i0")
      case True
      have "\<not> (base + ?off + Suc i0 \<le> ?slot \<and> ?slot < base + ?off + n)" by linarith
      then have "cpu_descriptor a' ?slot = cpu_descriptor a1 ?slot" using U by blast
      then have "cpu_descriptor a' ?slot = Some d" using c1 by simp
      then show ?thesis using w_content True by blast
    next
      case False
      then have "Suc i0 \<le> i \<and> i < n" using i by linarith
      then show ?thesis using W by blast
    qed
  qed
  from R U' W' show ?case by blast
qed


end
